theory Spec2Isabelle
  imports Main
begin

section \<open>JavaScript strings\<close>

text \<open>
  A JavaScript string is a sequence of UTF-16 code units; \<open>length\<close>, \<open>substring\<close>,
  \<open>split\<close> and \<open>trim\<close> all count code units. A code unit is modelled as a natural
  number (every 16-bit value is one), and an ASCII literal of the source is written
  \<open>js ''...''\<close>.
\<close>

type_synonym jsstring = "nat list"

definition js :: "string \<Rightarrow> jsstring" where
  "js s = map of_char s"

text \<open>
  \<open>String.prototype.trim\<close> removes WhiteSpace and LineTerminator code points from both
  ends: TAB, LF, VT, FF, CR, SP, NBSP, U+1680, U+2000..U+200A, LS, PS, U+202F, U+205F,
  U+3000 and the byte order mark U+FEFF.
\<close>

definition is_white :: "nat \<Rightarrow> bool" where
  "is_white c \<longleftrightarrow>
     c = 9 \<or> c = 10 \<or> c = 11 \<or> c = 12 \<or> c = 13 \<or> c = 32 \<or> c = 160 \<or> c = 5760 \<or>
     (8192 \<le> c \<and> c \<le> 8202) \<or> c = 8232 \<or> c = 8233 \<or> c = 8239 \<or> c = 8287 \<or>
     c = 12288 \<or> c = 65279"

definition trim :: "jsstring \<Rightarrow> jsstring" where
  "trim s = rev (dropWhile is_white (rev (dropWhile is_white s)))"

text \<open>
  \<open>s.split(' ')\<close>: the pieces between single spaces (code unit 32). The empty string
  gives one empty piece, and two adjacent spaces give an empty piece between them.
\<close>

fun split_space :: "jsstring \<Rightarrow> jsstring list" where
  "split_space [] = [[]]"
| "split_space (c # cs) =
     (if c = 32 then [] # split_space cs
      else (case split_space cs of
              [] \<Rightarrow> [[c]]
            | w # ws \<Rightarrow> (c # w) # ws))"

section \<open>APIClient: the blocking query and its word-by-word replay\<close>

text \<open>
  \<open>AgentResponse\<close> of \<open>types/agents.ts\<close>: the \<open>answer\<close> string, and the optional fields
  (confidence, citations, entities, graph, agentActivities) kept together as \<open>extras\<close>.
\<close>

record 'x AgentResponse =
  answer :: jsstring
  extras :: 'x

text \<open>
  The callbacks a streaming call invokes, in the order of invocation. \<open>OnChunk\<close> and
  \<open>OnLog\<close> are the progress callbacks, \<open>OnComplete\<close> and \<open>OnError\<close> the terminal ones.
\<close>

datatype ('l, 'r, 'e) callback =
    OnChunk jsstring
  | OnLog 'l
  | OnComplete 'r
  | OnError 'e

fun is_progress :: "('l, 'r, 'e) callback \<Rightarrow> bool" where
  "is_progress (OnChunk _) = True"
| "is_progress (OnLog _) = True"
| "is_progress (OnComplete _) = False"
| "is_progress (OnError _) = False"

definition is_terminal :: "('l, 'r, 'e) callback \<Rightarrow> bool" where
  "is_terminal ev \<longleftrightarrow> \<not> is_progress ev"

text \<open>
  \<open>APIClient.query\<close>: post the request; a failure of the HTTP call is logged and thrown
  again. \<open>post\<close> is the backend: \<open>Inl e\<close> when the call throws \<open>e\<close>, \<open>Inr d\<close> when it
  answers with \<open>response.data = d\<close>.
\<close>

definition APIClient_query :: "('q \<Rightarrow> 'e + 'r) \<Rightarrow> 'q \<Rightarrow> 'e + 'r" where
  "APIClient_query post request =
     (case post request of
        Inl error \<Rightarrow> Inl error
      | Inr data \<Rightarrow> Inr data)"

text \<open>
  The loop of \<open>streamQuery\<close>: \<open>accumulated += word + ' '; onChunk(accumulated.trim())\<close>.
  A callback is a function that says whether its invocation throws (\<open>Some e\<close>) or returns
  (\<open>None\<close>); the loop stops at the first one that throws. The result is the invocations
  made and the exception that ended the loop, if any. The 20 ms pause between two words
  does not change the order of invocations.
\<close>

fun chunk_loop ::
  "(jsstring \<Rightarrow> 'e option) \<Rightarrow> jsstring \<Rightarrow> jsstring list \<Rightarrow>
   ('l, 'r, 'e) callback list \<times> 'e option"
where
  "chunk_loop onChunk accumulated [] = ([], None)"
| "chunk_loop onChunk accumulated (word # words) =
     (let accumulated' = accumulated @ word @ [32] in
      case onChunk (trim accumulated') of
        Some e \<Rightarrow> ([OnChunk (trim accumulated')], Some e)
      | None \<Rightarrow>
          (case chunk_loop onChunk accumulated' words of
             (evs, r) \<Rightarrow> (OnChunk (trim accumulated') # evs, r)))"

text \<open>
  \<open>streamQuery\<close>: everything is inside one \<open>try\<close>, so a failed query, a throwing
  \<open>onChunk\<close> and a throwing \<open>onComplete\<close> all end in \<open>onError\<close>.
\<close>

definition streamQuery ::
  "('q \<Rightarrow> 'e + 'x AgentResponse) \<Rightarrow> (jsstring \<Rightarrow> 'e option) \<Rightarrow> ('x AgentResponse \<Rightarrow> 'e option) \<Rightarrow>
   'q \<Rightarrow> ('l, 'x AgentResponse, 'e) callback list"
where
  "streamQuery post onChunk onComplete request =
     (case APIClient_query post request of
        Inl error \<Rightarrow> [OnError error]
      | Inr response \<Rightarrow>
          (case chunk_loop onChunk [] (split_space (answer response)) of
             (evs, Some error) \<Rightarrow> evs @ [OnError error]
           | (evs, None) \<Rightarrow>
               (case onComplete response of
                  None \<Rightarrow> evs @ [OnComplete response]
                | Some error \<Rightarrow> evs @ [OnComplete response, OnError error])))"

text \<open>The arguments of the \<open>onChunk\<close> invocations in a list of invocations.\<close>

fun chunk_args :: "('l, 'r, 'e) callback list \<Rightarrow> jsstring list" where
  "chunk_args [] = []"
| "chunk_args (OnChunk c # evs) = c # chunk_args evs"
| "chunk_args (_ # evs) = chunk_args evs"

section \<open>EnhancedAPIClient: the structured query\<close>

text \<open>The interfaces \<open>Brief\<close> and \<open>EnhancedQueryResponse\<close> of \<open>types/api.ts\<close>.\<close>

record Brief =
  consensus :: jsstring
  contradiction :: jsstring
  gap :: jsstring

record 'p EnhancedQueryResponse =
  brief :: Brief
  evidence :: "'p list"
  highlighted_concepts :: "jsstring list"
  follow_up_questions :: "jsstring list"
  agent_logs :: "jsstring list"

text \<open>
  \<open>response.data\<close> of \<open>POST /query\<close> is unchecked JSON: each field the client reads may be
  absent (\<open>None\<close>). \<open>'p\<close> is the type of a publication, \<open>'s\<close> of an intermediate step.
\<close>

record ('p, 's) response_data =
  data_answer :: "jsstring option"
  data_brief :: "Brief option"
  data_publications :: "'p list option"
  data_intermediate_steps :: "'s list option"

text \<open>
  What \<open>query\<close> returns: the structured object built by \<open>transformLegacyResponse\<close>, or
  \<open>response.data\<close> itself, cast to \<open>EnhancedQueryResponse\<close> without a check.
\<close>

datatype ('p, 's) query_result =
    Transformed "'p EnhancedQueryResponse"
  | AsReceived "('p, 's) response_data"

fun result_brief :: "('p, 's) query_result \<Rightarrow> Brief option" where
  "result_brief (Transformed r) = Some (brief r)"
| "result_brief (AsReceived d) = data_brief d"

subsection \<open>extractSection\<close>

text \<open>
  The regular expression is \<open>keyword[^.]*[.][^]*?(?=\n\n|$)\<close> with the flag \<open>i\<close>. The
  keywords of the source are lower-case ASCII letters and spaces, and for those the
  case-insensitive comparison of a non-Unicode regular expression is equality after
  mapping \<open>a..z\<close> to \<open>A..Z\<close>: no code unit from 128 on is canonicalised to an ASCII one.
\<close>

definition canonicalize :: "nat \<Rightarrow> nat" where
  "canonicalize c = (if 97 \<le> c \<and> c \<le> 122 then c - 32 else c)"

fun starts_with_ci :: "jsstring \<Rightarrow> jsstring \<Rightarrow> bool" where
  "starts_with_ci text [] = True"
| "starts_with_ci [] (k # ks) = False"
| "starts_with_ci (c # cs) (k # ks) =
     (canonicalize c = canonicalize k \<and> starts_with_ci cs ks)"

text \<open>\<open>[^]*?(?=\n\n|$)\<close>: the shortest run up to a blank line or the end of the text.\<close>

fun until_blank_line :: "jsstring \<Rightarrow> jsstring" where
  "until_blank_line [] = []"
| "until_blank_line [c] = [c]"
| "until_blank_line (c # d # cs) =
     (if c = 10 \<and> d = 10 then [] else c # until_blank_line (d # cs))"

text \<open>
  A match that starts at the head of the text: the keyword, the code units up to the next
  full stop (46; \<open>[^.]\<close> also matches a line break), the full stop, and the run up to the
  blank line. Without a full stop after the keyword there is no match here.
\<close>

definition match_here :: "jsstring \<Rightarrow> jsstring \<Rightarrow> jsstring option" where
  "match_here keyword text =
     (if starts_with_ci text keyword then
        (let rest = drop (length keyword) text in
         case dropWhile (\<lambda>c. c \<noteq> 46) rest of
           [] \<Rightarrow> None
         | dot # tail \<Rightarrow>
             Some (take (length keyword) text @ takeWhile (\<lambda>c. c \<noteq> 46) rest @ [dot]
                   @ until_blank_line tail))
      else None)"

text \<open>\<open>text.match(regex)\<close> without the flag \<open>g\<close>: the match at the leftmost start.\<close>

fun extractSection :: "jsstring \<Rightarrow> jsstring \<Rightarrow> jsstring option" where
  "extractSection [] keyword = match_here keyword []"
| "extractSection (c # cs) keyword =
     (case match_here keyword (c # cs) of
        Some m \<Rightarrow> Some m
      | None \<Rightarrow> extractSection cs keyword)"

text \<open>\<open>a || b\<close> on a string or \<open>null\<close>: \<open>null\<close> and the empty string are falsy.\<close>

fun or_else :: "jsstring option \<Rightarrow> jsstring \<Rightarrow> jsstring" where
  "or_else None d = d"
| "or_else (Some s) d = (if s = [] then d else s)"

subsection \<open>extractConcepts\<close>

fun starts_with :: "jsstring \<Rightarrow> jsstring \<Rightarrow> bool" where
  "starts_with text [] = True"
| "starts_with [] (k # ks) = False"
| "starts_with (c # cs) (k # ks) = (c = k \<and> starts_with cs ks)"

fun js_includes :: "jsstring \<Rightarrow> jsstring \<Rightarrow> bool" where
  "js_includes [] pat = starts_with [] pat"
| "js_includes (c # cs) pat = (starts_with (c # cs) pat \<or> js_includes cs pat)"

definition knownConcepts :: "jsstring list" where
  "knownConcepts =
     [js ''microgravity'', js ''spaceflight'', js ''radiation'', js ''photosynthesis'',
      js ''cardiovascular'', js ''bone density'', js ''muscle atrophy'', js ''immune system'',
      js ''circadian rhythm'', js ''oxidative stress'', js ''gene expression'']"

text \<open>
  \<open>String.prototype.toLowerCase\<close> is the runtime's Unicode lower-casing; it is a
  parameter of the model.
\<close>

definition extractConcepts :: "(jsstring \<Rightarrow> jsstring) \<Rightarrow> jsstring \<Rightarrow> jsstring list" where
  "extractConcepts toLowerCase text =
     take 5 (filter (\<lambda>concept. js_includes (toLowerCase text) (toLowerCase concept)) knownConcepts)"

subsection \<open>transformLegacyResponse and query\<close>

text \<open>\<open>JSON.stringify\<close> of an intermediate step is the parameter \<open>stringify\<close>.\<close>

definition transformLegacyResponse ::
  "(jsstring \<Rightarrow> jsstring) \<Rightarrow> ('s \<Rightarrow> jsstring) \<Rightarrow> ('p, 's) response_data \<Rightarrow> 'p EnhancedQueryResponse"
where
  "transformLegacyResponse toLowerCase stringify legacyData =
     (let answer = (case data_answer legacyData of None \<Rightarrow> [] | Some a \<Rightarrow> a);
          consensus =
            or_else (extractSection answer (js ''consensus''))
              (or_else (extractSection answer (js ''findings'')) (take 300 answer));
          contradiction =
            or_else (extractSection answer (js ''contradiction''))
              (or_else (extractSection answer (js ''conflicting''))
                 (js ''No significant contradictions identified in the literature.''));
          gap =
            or_else (extractSection answer (js ''gap''))
              (or_else (extractSection answer (js ''future research''))
                 (js ''Additional research may be needed to fully address this question.''))
      in \<lparr>brief = \<lparr>consensus = consensus, contradiction = contradiction, gap = gap\<rparr>,
          evidence = (case data_publications legacyData of None \<Rightarrow> [] | Some ps \<Rightarrow> ps),
          highlighted_concepts = extractConcepts toLowerCase answer,
          follow_up_questions =
            [js ''Can you provide more details about the methodology?'',
             js ''What are the implications for future missions?'',
             js ''Are there any ongoing studies on this topic?''],
          agent_logs =
            map stringify
              (case data_intermediate_steps legacyData of None \<Rightarrow> [] | Some steps \<Rightarrow> steps)\<rparr>)"

text \<open>
  \<open>query\<close>: a failed HTTP call is logged and thrown again; a response with a truthy
  \<open>answer\<close> (a non-empty string) and no \<open>brief\<close> is transformed; any other response is
  returned as it was received.
\<close>

definition query ::
  "(jsstring \<Rightarrow> jsstring) \<Rightarrow> ('s \<Rightarrow> jsstring) \<Rightarrow> ('q \<Rightarrow> 'e + ('p, 's) response_data) \<Rightarrow> 'q \<Rightarrow>
   'e + ('p, 's) query_result"
where
  "query toLowerCase stringify post request =
     (case post request of
        Inl error \<Rightarrow> Inl error
      | Inr data \<Rightarrow>
          (if (case data_answer data of None \<Rightarrow> False | Some a \<Rightarrow> a \<noteq> []) \<and> data_brief data = None
           then Inr (Transformed (transformLegacyResponse toLowerCase stringify data))
           else Inr (AsReceived data)))"

section \<open>EnhancedAPIClient: streaming\<close>

text \<open>\<open>QueryRequest\<close> of \<open>types/api.ts\<close>.\<close>

record QueryRequest =
  question :: jsstring
  persona :: jsstring
  conversation_history :: "(jsstring \<times> jsstring) list option"

text \<open>
  A server-sent event carries a string that the handler parses as JSON and reads through
  the fields \<open>type\<close> and \<open>content\<close>. The content is whatever the JSON holds: a string, a
  response object, or nothing.
\<close>

datatype 'r content = Text jsstring | Payload 'r | Undefined

record 'r stream_data =
  data_type :: jsstring
  data_content :: "'r content"

text \<open>
  What an \<open>EventSource\<close> delivers: a message with its parsed data (\<open>None\<close> when
  \<open>JSON.parse\<close> throws on it) or the \<open>error\<close> event of the connection.
\<close>

datatype 'd sse_event = Message "'d option" | ConnectionError

text \<open>
  The world around the client: the JavaScript runtime (\<open>toLowerCase\<close>, \<open>stringify\<close>, the
  successive readings of the clock as \<open>toLocaleTimeString\<close> prints them), the backend
  (\<open>POST /query\<close>; \<open>GET /health\<close> with the field \<open>streaming_supported\<close> when it is a
  boolean) and the event source that \<open>new EventSource(url)\<close> opens for a question and a
  persona (\<open>Inl e\<close> when the constructor throws).
\<close>

record ('e, 'p, 's) world =
  toLowerCase :: "jsstring \<Rightarrow> jsstring"
  stringify :: "'s \<Rightarrow> jsstring"
  clock :: "nat \<Rightarrow> jsstring"
  post_query :: "QueryRequest \<Rightarrow> 'e + ('p, 's) response_data"
  get_health :: "'e + bool option"
  event_source :: "jsstring \<Rightarrow> jsstring \<Rightarrow> 'e + ('p, 's) query_result stream_data sse_event list"

type_synonym ('e, 'p, 's) invocation =
  "(('p, 's) query_result content, ('p, 's) query_result content, 'e) callback"

type_synonym ('e, 'p, 's) handler = "('p, 's) query_result content \<Rightarrow> 'e option"

definition world_query ::
  "('e, 'p, 's) world \<Rightarrow> QueryRequest \<Rightarrow> 'e + ('p, 's) query_result"
where
  "world_query w request = query (toLowerCase w) (stringify w) (post_query w) request"

text \<open>\<open>checkStreamingSupport\<close>: \<open>streaming_supported === true\<close>, and \<open>false\<close> on any error.\<close>

definition checkStreamingSupport :: "('e, 'p, 's) world \<Rightarrow> bool" where
  "checkStreamingSupport w =
     (case get_health w of
        Inl error \<Rightarrow> False
      | Inr streaming_supported \<Rightarrow> streaming_supported = Some True)"

definition simulatedLogs :: "(nat \<Rightarrow> jsstring) \<Rightarrow> jsstring list" where
  "simulatedLogs now =
     [js ''['' @ now 0 @ js ''] Deconstructing user goal...'',
      js ''['' @ now 1 @ js ''] Analyzing question for key concepts...'',
      js ''['' @ now 2 @ js ''] Querying knowledge graph for relevant publications...'',
      js ''['' @ now 3 @ js ''] Retrieved publications from database'',
      js ''['' @ now 4 @ js ''] Analyzing consensus patterns...'',
      js ''['' @ now 5 @ js ''] Identifying contradictory findings...'',
      js ''['' @ now 6 @ js ''] Detecting knowledge gaps...'',
      js ''['' @ now 7 @ js ''] Synthesizing final brief...'']"

text \<open>
  The loop of \<open>simulateStreaming\<close>: \<open>onLog\<close> on each log in turn. There is no \<open>try\<close>
  around it: a throwing \<open>onLog\<close> rejects the promise and the loop ends.
\<close>

fun log_loop ::
  "('e, 'p, 's) handler \<Rightarrow> jsstring list \<Rightarrow> ('e, 'p, 's) invocation list \<times> 'e option"
where
  "log_loop onLog [] = ([], None)"
| "log_loop onLog (log # logs) =
     (case onLog (Text log) of
        Some e \<Rightarrow> ([OnLog (Text log)], Some e)
      | None \<Rightarrow>
          (case log_loop onLog logs of
             (evs, r) \<Rightarrow> (OnLog (Text log) # evs, r)))"

text \<open>
  \<open>simulateStreaming\<close>: the eight logs, then the blocking query and \<open>onComplete\<close> on its
  result. The function has no error callback; the second component is the error its
  promise is rejected with, if any.
\<close>

definition simulateStreaming ::
  "('e, 'p, 's) world \<Rightarrow> ('e, 'p, 's) handler \<Rightarrow> ('e, 'p, 's) handler \<Rightarrow> QueryRequest \<Rightarrow>
   ('e, 'p, 's) invocation list \<times> 'e option"
where
  "simulateStreaming w onLog onComplete request =
     (case log_loop onLog (simulatedLogs (clock w)) of
        (evs, Some error) \<Rightarrow> (evs, Some error)
      | (evs, None) \<Rightarrow>
          (case world_query w request of
             Inl error \<Rightarrow> (evs, Some error)
           | Inr result \<Rightarrow> (evs @ [OnComplete (Payload result)], onComplete (Payload result))))"

text \<open>\<open>this.query(request).then(onComplete)\<close>: nothing is invoked when the query fails.\<close>

definition query_then ::
  "('e, 'p, 's) world \<Rightarrow> QueryRequest \<Rightarrow> ('e, 'p, 's) invocation list"
where
  "query_then w request =
     (case world_query w request of
        Inl error \<Rightarrow> []
      | Inr result \<Rightarrow> [OnComplete (Payload result)])"

text \<open>
  The handlers on the event source, run over the events in their order until the source
  is closed. An exception inside a handler ends that handler only: unparseable data and a
  throwing \<open>onLog\<close> leave the source open, and a throwing \<open>onComplete\<close> skips the
  \<open>eventSource.close()\<close> after it. Only the types \<open>log\<close> and \<open>result\<close> are acted on.
\<close>

fun onmessage_loop ::
  "('e, 'p, 's) world \<Rightarrow> ('e, 'p, 's) handler \<Rightarrow> QueryRequest \<Rightarrow>
   ('p, 's) query_result stream_data sse_event list \<Rightarrow> ('e, 'p, 's) invocation list"
where
  "onmessage_loop w onComplete request [] = []"
| "onmessage_loop w onComplete request (Message None # events) =
     onmessage_loop w onComplete request events"
| "onmessage_loop w onComplete request (Message (Some data) # events) =
     (if data_type data = js ''log'' then
        OnLog (data_content data) # onmessage_loop w onComplete request events
      else if data_type data = js ''result'' then
        (case onComplete (data_content data) of
           None \<Rightarrow> [OnComplete (data_content data)]
         | Some e \<Rightarrow> OnComplete (data_content data) # onmessage_loop w onComplete request events)
      else onmessage_loop w onComplete request events)"
| "onmessage_loop w onComplete request (ConnectionError # events) = query_then w request"

text \<open>
  \<open>queryWithStreaming\<close>. \<open>simulateStreaming\<close> is called without \<open>await\<close>, so its rejection
  does not reach the \<open>catch\<close>; the \<open>catch\<close> is reached when the event source cannot be
  constructed.
\<close>

definition queryWithStreaming ::
  "('e, 'p, 's) world \<Rightarrow> ('e, 'p, 's) handler \<Rightarrow> ('e, 'p, 's) handler \<Rightarrow> QueryRequest \<Rightarrow>
   ('e, 'p, 's) invocation list"
where
  "queryWithStreaming w onLog onComplete request =
     (if checkStreamingSupport w then
        (case event_source w (question request) (persona request) of
           Inl error \<Rightarrow> query_then w request
         | Inr events \<Rightarrow> onmessage_loop w onComplete request events)
      else fst (simulateStreaming w onLog onComplete request))"

section \<open>The declared stream event\<close>

text \<open>
  \<open>StreamEvent\<close> of \<open>types/api.ts\<close>: the \<open>type\<close> field is one of four string literals.
\<close>

datatype StreamEvent_type = Type_log | Type_thought | Type_tool | Type_result

fun type_name :: "StreamEvent_type \<Rightarrow> jsstring" where
  "type_name Type_log = js ''log''"
| "type_name Type_thought = js ''thought''"
| "type_name Type_tool = js ''tool''"
| "type_name Type_result = js ''result''"

record StreamEvent =
  event_type :: StreamEvent_type
  event_content :: jsstring
  event_timestamp :: jsstring

section \<open>Login and the authentication state of the App\<close>

text \<open>
  The state of the \<open>Login\<close> component, the body of an authentication response as the
  component reads it (\<open>detail\<close> of an error, \<open>access_token\<close> of a success), and the
  outcome of \<open>fetch\<close>: \<open>Inl message\<close> when it throws, else the response with its \<open>ok\<close>
  flag and the outcome of \<open>response.json()\<close>.
\<close>

record LoginState =
  isLogin :: bool
  email :: jsstring
  password :: jsstring
  error :: jsstring
  loading :: bool

record auth_body =
  detail :: "jsstring option"
  access_token :: jsstring

record fetch_response =
  ok :: bool
  json :: "jsstring + auth_body"

type_synonym localStorage = "jsstring \<rightharpoonup> jsstring"

text \<open>
  \<open>handleSubmit\<close>. \<open>fetch\<close> takes the endpoint, the email and the password. The result is
  the new component state, the new \<open>localStorage\<close> and the invocations of
  \<open>onLoginSuccess\<close> with their token and email. Every exception of the \<open>try\<close> block ends in
  \<open>setError(err.message || 'An error occurred')\<close>, and \<open>finally\<close> clears \<open>loading\<close>.
\<close>

definition handleSubmit ::
  "(jsstring \<Rightarrow> jsstring \<Rightarrow> jsstring \<Rightarrow> jsstring + fetch_response) \<Rightarrow> LoginState \<Rightarrow> localStorage \<Rightarrow>
   LoginState \<times> localStorage \<times> (jsstring \<times> jsstring) list"
where
  "handleSubmit fetch st storage =
     (let endpoint = (if isLogin st then js ''/auth/login'' else js ''/auth/register'');
          failed = (\<lambda>message.
            (st\<lparr>error := or_else (Some message) (js ''An error occurred''), loading := False\<rparr>,
             storage, []))
      in case fetch endpoint (email st) (password st) of
           Inl message \<Rightarrow> failed message
         | Inr response \<Rightarrow>
             if \<not> ok response then
               (case json response of
                  Inl message \<Rightarrow> failed message
                | Inr errorData \<Rightarrow>
                    failed (or_else (detail errorData) (js ''Authentication failed'')))
             else
               (case json response of
                  Inl message \<Rightarrow> failed message
                | Inr data \<Rightarrow>
                    (st\<lparr>error := [], loading := False\<rparr>,
                     storage(js ''auth_token'' \<mapsto> access_token data,
                             js ''user_email'' \<mapsto> email st),
                     [(access_token data, email st)])))"

text \<open>\<open>handleSkip\<close>: continue without login.\<close>

definition handleSkip :: "(jsstring \<times> jsstring) list" where
  "handleSkip = [([], [])]"

text \<open>
  The authentication state of \<open>App\<close>, its initial value, and \<open>handleLoginSuccess\<close>, the
  function \<open>App\<close> passes to \<open>Login\<close> as \<open>onLoginSuccess\<close>. While \<open>showLogin\<close> holds, \<open>App\<close>
  renders the login screen instead of the query interface.
\<close>

record AppAuth =
  isAuthenticated :: bool
  authToken :: jsstring
  userEmail :: jsstring
  showLogin :: bool

definition initialAuth :: AppAuth where
  "initialAuth = \<lparr>isAuthenticated = False, authToken = [], userEmail = [], showLogin = True\<rparr>"

definition handleLoginSuccess :: "AppAuth \<Rightarrow> jsstring \<times> jsstring \<Rightarrow> AppAuth" where
  "handleLoginSuccess a call =
     (case call of (token, mail) \<Rightarrow>
        (if token \<noteq> [] \<and> mail \<noteq> []
         then a\<lparr>authToken := token, userEmail := mail, isAuthenticated := True\<rparr>
         else a)\<lparr>showLogin := False\<rparr>)"

definition after_login :: "AppAuth \<Rightarrow> (jsstring \<times> jsstring) list \<Rightarrow> AppAuth" where
  "after_login a calls = foldl handleLoginSuccess a calls"

section \<open>App: the streamed query\<close>

text \<open>
  The part of the state of \<open>App\<close> that a query changes, the data of one message of the
  stream as the handler of \<open>App\<close> reads it (\<open>type\<close>, \<open>message\<close>, \<open>brief\<close>, \<open>evidence\<close>,
  \<open>follow_up_questions\<close>), and the body of the answer to the fallback request. \<open>'b\<close> is
  the type of a brief, \<open>'v\<close> of an evidence item.
\<close>

record ('b, 'v) AppQuery =
  queryHistory :: "jsstring list"
  agentLog :: "jsstring list"
  isStreaming :: bool
  app_brief :: "'b option"
  app_evidence :: "'v list"
  followUpQuestions :: "jsstring list"

record ('b, 'v) app_data =
  app_type :: jsstring
  app_message :: jsstring
  data_app_brief :: "'b option"
  data_app_evidence :: "'v list"
  data_follow_up_questions :: "jsstring list option"

record ('b, 'v) fallback_data =
  success :: bool
  fallback_brief :: "'b option"
  fallback_evidence :: "'v list"
  fallback_follow_up_questions :: "jsstring list option"

text \<open>
  \<open>eventSource.onmessage\<close> of \<open>App\<close> on parsed data: the new state, and whether the handler
  closed the source. It acts on the types \<open>log\<close>, \<open>result\<close>, \<open>error\<close> and \<open>done\<close>, and closes
  the source on \<open>done\<close> only.
\<close>

definition App_onmessage ::
  "('b, 'v) AppQuery \<Rightarrow> ('b, 'v) app_data \<Rightarrow> ('b, 'v) AppQuery \<times> bool"
where
  "App_onmessage st data =
     (if app_type data = js ''log'' then
        (st\<lparr>agentLog := agentLog st @ [app_message data]\<rparr>, False)
      else if app_type data = js ''result'' then
        (st\<lparr>app_brief := data_app_brief data,
            app_evidence := data_app_evidence data,
            followUpQuestions :=
              (case data_follow_up_questions data of None \<Rightarrow> [] | Some qs \<Rightarrow> qs),
            isStreaming := False\<rparr>, False)
      else if app_type data = js ''error'' then
        (st\<lparr>agentLog := agentLog st @ [js ''[ERROR] '' @ app_message data],
            isStreaming := False\<rparr>, False)
      else if app_type data = js ''done'' then (st, True)
      else (st, False))"

text \<open>
  \<open>fallbackQuery\<close>: the blocking request; \<open>None\<close> stands for a \<open>fetch\<close> or a
  \<open>response.json()\<close> that throws.
\<close>

definition fallbackQuery ::
  "('b, 'v) fallback_data option \<Rightarrow> ('b, 'v) AppQuery \<Rightarrow> ('b, 'v) AppQuery"
where
  "fallbackQuery reply st =
     (case reply of
        None \<Rightarrow>
          st\<lparr>agentLog := agentLog st @ [js ''[ERROR] Fallback query failed.''],
             isStreaming := False\<rparr>
      | Some data \<Rightarrow>
          (if success data then
             st\<lparr>app_brief := fallback_brief data,
                app_evidence := fallback_evidence data,
                followUpQuestions :=
                  (case fallback_follow_up_questions data of None \<Rightarrow> [] | Some qs \<Rightarrow> qs)\<rparr>
           else st\<lparr>agentLog := agentLog st @ [js ''[ERROR] No results returned.'']\<rparr>)
          \<lparr>isStreaming := False\<rparr>)"

text \<open>\<open>eventSource.onerror\<close> of \<open>App\<close>: log, stop streaming, close, fall back.\<close>

definition App_onerror ::
  "('b, 'v) fallback_data option \<Rightarrow> ('b, 'v) AppQuery \<Rightarrow> ('b, 'v) AppQuery"
where
  "App_onerror reply st =
     fallbackQuery reply
       (st\<lparr>agentLog :=
             agentLog st @ [js ''[ERROR] Connection to backend lost. Using fallback mode.''],
           isStreaming := False\<rparr>)"

text \<open>
  The two handlers of \<open>App\<close> run over the events of the source until it is closed.
  Unparseable data throws inside the handler and changes nothing.
\<close>

fun App_stream ::
  "('b, 'v) fallback_data option \<Rightarrow> ('b, 'v) AppQuery \<Rightarrow> ('b, 'v) app_data sse_event list \<Rightarrow>
   ('b, 'v) AppQuery"
where
  "App_stream reply st [] = st"
| "App_stream reply st (Message None # events) = App_stream reply st events"
| "App_stream reply st (Message (Some data) # events) =
     (case App_onmessage st data of
        (st', closed) \<Rightarrow> if closed then st' else App_stream reply st' events)"
| "App_stream reply st (ConnectionError # events) = App_onerror reply st"

text \<open>
  \<open>handleSubmit\<close> of \<open>App\<close> for the query text typed: nothing for a blank query; else
  the query is put in front of the history, the view is reset, and the stream is read;
  when the event source cannot be constructed (\<open>Inl e\<close>) the fallback runs at once.
\<close>

definition App_handleSubmit ::
  "('e + ('b, 'v) app_data sse_event list) \<Rightarrow> ('b, 'v) fallback_data option \<Rightarrow> jsstring \<Rightarrow>
   ('b, 'v) AppQuery \<Rightarrow> ('b, 'v) AppQuery"
where
  "App_handleSubmit source reply typed st =
     (if trim typed = [] then st
      else
        (let st1 = st\<lparr>queryHistory := typed # queryHistory st, isStreaming := True,
                       agentLog := [], app_brief := None, app_evidence := []\<rparr>
         in case source of
              Inl e \<Rightarrow> fallbackQuery reply st1
            | Inr events \<Rightarrow> App_stream reply st1 events))"

section \<open>queryHistoryService\<close>

text \<open>
  \<open>QueryHistoryItem\<close>. The service reads \<open>session_id\<close> only; the other fields travel
  with the item.
\<close>

record QueryHistoryItem =
  item_id :: "jsstring option"
  session_id :: jsstring
  item_query :: jsstring
  item_persona :: jsstring
  item_timestamp :: jsstring
  item_answer :: "jsstring option"

text \<open>
  A string held by \<open>localStorage\<close> under a history key, by what \<open>JSON.parse\<close> makes of
  it: the empty string (falsy, never parsed), a string that is not JSON, the JSON of an
  array of items (\<open>JSON.stringify\<close> of a list of items parses back to that list), or
  other JSON. The storage accepts every write.
\<close>

datatype stored = EmptyString | NotJson | JsonArray "QueryHistoryItem list" | JsonOther

type_synonym history_storage = "jsstring \<rightharpoonup> stored"

definition HISTORY_KEY :: jsstring where
  "HISTORY_KEY = js ''nasa_query_history''"

definition history_key :: "jsstring \<Rightarrow> jsstring" where
  "history_key sessionId = HISTORY_KEY @ js ''_'' @ sessionId"

text \<open>
  \<open>getLocalHistory\<close>: \<open>[]\<close> for a missing or empty entry and when parsing throws, else
  the parsed value, which is \<open>None\<close> here when it is not an array.
\<close>

definition getLocalHistory :: "history_storage \<Rightarrow> jsstring \<Rightarrow> QueryHistoryItem list option" where
  "getLocalHistory storage sessionId =
     (case storage (history_key sessionId) of
        None \<Rightarrow> Some []
      | Some EmptyString \<Rightarrow> Some []
      | Some NotJson \<Rightarrow> Some []
      | Some (JsonArray items) \<Rightarrow> Some items
      | Some JsonOther \<Rightarrow> None)"

definition getSessionHistory :: "history_storage \<Rightarrow> jsstring \<Rightarrow> QueryHistoryItem list option" where
  "getSessionHistory storage sessionId = getLocalHistory storage sessionId"

text \<open>
  \<open>saveQuery\<close>: \<open>unshift\<close>, \<open>slice(0, 20)\<close>, write back. On a parsed value that is not an
  array \<open>unshift\<close> throws, the \<open>catch\<close> logs it and nothing is written.
\<close>

definition saveQuery :: "history_storage \<Rightarrow> QueryHistoryItem \<Rightarrow> history_storage" where
  "saveQuery storage item =
     (case getLocalHistory storage (session_id item) of
        None \<Rightarrow> storage
      | Some history \<Rightarrow>
          storage(history_key (session_id item) \<mapsto> JsonArray (take 20 (item # history))))"

section \<open>The backend core, from the specification\<close>

text \<open>
  The backend (preference learning, conversation memory, the query endpoint) is not among
  the sources; the repository only describes it (\<open>AUTH_SYSTEM_SUMMARY.md\<close>,
  \<open>IMPLEMENTATION_COMPLETE.md\<close>). The definitions of this section follow the
  specification, sections 3, 4 and 6, sentence by sentence. The per-user mutual exclusion of
  the specification makes every operation atomic; an operation is a function on the state.
\<close>

subsection \<open>PreferenceAggregator\<close>

text \<open>
  Modelled from the spec: the backend's \<open>PreferenceProfile\<close> (section 3). The two count
  mappings are kept in the order in which their keys were first recorded, since the
  tie-break rule refers to that order.
\<close>

record PreferenceProfile =
  totalQueries :: nat
  personaCounts :: "(string \<times> nat) list"
  topicCounts :: "(string \<times> nat) list"
  preferredPersona :: "string option"
  lastActiveAt :: nat

text \<open>
  Modelled from the spec: the profile of a user never seen (\<open>NotFound\<close> is treated as an
  empty default, section 7).
\<close>

definition emptyProfile :: PreferenceProfile where
  "emptyProfile =
     \<lparr>totalQueries = 0, personaCounts = [], topicCounts = [], preferredPersona = None,
      lastActiveAt = 0\<rparr>"

text \<open>
  Modelled from the spec: the backend's counter update, "increment \<open>personaCounts[persona]\<close>
  (initializing to 1 if absent)" (section 4.3); a new key goes to the end.
\<close>

fun increment :: "(string \<times> nat) list \<Rightarrow> string \<Rightarrow> (string \<times> nat) list" where
  "increment [] k = [(k, 1)]"
| "increment ((k', n) # kvs) k =
     (if k' = k then (k', Suc n) # kvs else (k', n) # increment kvs k)"

text \<open>Modelled from the spec: the backend's "maximum count in \<open>personaCounts\<close>".\<close>

definition max_count :: "(string \<times> nat) list \<Rightarrow> nat" where
  "max_count kvs = fold max (map snd kvs) 0"

text \<open>
  Modelled from the spec: the backend's tied leaders, the personas that share the
  maximum count, in the order of their first recording.
\<close>

definition leaders :: "(string \<times> nat) list \<Rightarrow> string list" where
  "leaders kvs = map fst (filter (\<lambda>kv. snd kv = max_count kvs) kvs)"

text \<open>
  Modelled from the spec: the backend's tie-break rule (section 4.3), "retain the
  previously-set \<open>preferredPersona\<close> if it is among the tied leaders, otherwise pick the
  persona-name that reached that count first chronologically (first persona, among the
  ties, to have been recorded at all)".
\<close>

definition recompute_preferred :: "string option \<Rightarrow> (string \<times> nat) list \<Rightarrow> string option" where
  "recompute_preferred previous kvs =
     (let first_leader = (case leaders kvs of [] \<Rightarrow> None | l # _ \<Rightarrow> Some l)
      in case previous of
           None \<Rightarrow> first_leader
         | Some p \<Rightarrow> if p \<in> set (leaders kvs) then Some p else first_leader)"

text \<open>
  Modelled from the spec: the backend's \<open>RecordQuery\<close> on one user's profile (section 4.3,
  step 1): increment \<open>totalQueries\<close>, the persona's count and each topic's count, set
  \<open>lastActiveAt\<close>, recompute \<open>preferredPersona\<close>.
\<close>

definition RecordQuery ::
  "PreferenceProfile \<Rightarrow> string \<Rightarrow> string list \<Rightarrow> nat \<Rightarrow> PreferenceProfile"
where
  "RecordQuery p name topics now =
     (let counts = increment (personaCounts p) name
      in \<lparr>totalQueries = Suc (totalQueries p),
          personaCounts = counts,
          topicCounts = fold (\<lambda>topic kvs. increment kvs topic) topics (topicCounts p),
          preferredPersona = recompute_preferred (preferredPersona p) counts,
          lastActiveAt = now\<rparr>)"

text \<open>
  Modelled from the spec: the preferred persona after each of a sequence of recordings
  by one user, starting from a profile.
\<close>

fun preferred_after_each :: "PreferenceProfile \<Rightarrow> string list \<Rightarrow> string option list" where
  "preferred_after_each p [] = []"
| "preferred_after_each p (name # names) =
     (let p' = RecordQuery p name [] 0
      in preferredPersona p' # preferred_after_each p' names)"

subsection \<open>ConversationStore\<close>

text \<open>Modelled from the spec: the role of a backend \<open>Message\<close>, "user|assistant" (section 3).\<close>

datatype role = User | Assistant

text \<open>Modelled from the spec: the backend's \<open>Message\<close> (section 3).\<close>

record Message =
  message_role :: role
  message_text :: string
  occurredAt :: nat

text \<open>
  Modelled from the spec: the backend's \<open>ConversationStore\<close>, one window per user,
  created on the first use (section 3).
\<close>

type_synonym conversations = "string \<rightharpoonup> Message list"

text \<open>
  Modelled from the spec: the window of a user in the backend's \<open>ConversationStore\<close>; a
  user without one has the empty window.
\<close>

definition window :: "conversations \<Rightarrow> string \<Rightarrow> Message list" where
  "window store userID = (case store userID of None \<Rightarrow> [] | Some messages \<Rightarrow> messages)"

text \<open>Modelled from the spec: the backend's \<open>Append\<close> (section 4.2).\<close>

definition Append :: "conversations \<Rightarrow> string \<Rightarrow> Message \<Rightarrow> conversations" where
  "Append store userID message = store(userID \<mapsto> window store userID @ [message])"

text \<open>
  Modelled from the spec: the backend's \<open>RecentWindow\<close> (section 4.2): the last \<open>n\<close>
  messages, oldest first, all of them when fewer exist; for an unknown user it "lazily
  initializes an empty window". The result is the store and the messages read.
\<close>

definition RecentWindow :: "conversations \<Rightarrow> string \<Rightarrow> nat \<Rightarrow> conversations \<times> Message list" where
  "RecentWindow store userID n =
     (let messages = window store userID
      in (store(userID \<mapsto> messages), drop (length messages - n) messages))"

text \<open>Modelled from the spec: the default window size of the backend, \<open>n = 5\<close>.\<close>

definition default_window :: nat where
  "default_window = 5"

subsection \<open>QueryOrchestrator\<close>

text \<open>
  Modelled from the spec: the states of a backend \<open>QuerySession\<close>, "\<open>Started\<close>,
  \<open>Retrieving\<close>, \<open>Synthesizing\<close>, \<open>Completed\<close> or \<open>Failed\<close>" (section 4.4).
\<close>

datatype session_state = Started | Retrieving | Synthesizing | Completed | Failed

text \<open>
  Modelled from the spec: what the Evidence and Synthesis collaborator of the backend
  returns on success (section 6), with the answer text the chat variant appends.
\<close>

record synthesis =
  syn_brief :: "string \<times> string \<times> string"
  syn_evidence :: "string list"
  syn_followUps :: "string list"
  syn_topics :: "string list"
  syn_answer :: string

text \<open>
  Modelled from the spec: the backend's \<open>Event\<close> (section 3), \<open>Progress\<close> with its stage
  label, \<open>Result\<close> with brief, evidence and follow-ups, \<open>Failure\<close> with its reason.
\<close>

datatype event =
    Progress string
  | Result "string \<times> string \<times> string" "string list" "string list"
  | Failure string

text \<open>
  Modelled from the spec: one call of the backend's collaborator, the sub-stages it
  reports and then its failure (\<open>Inl reason\<close>: timeout, external error, malformed
  response) or its synthesis (section 4.4, steps 2 to 5).
\<close>

record collaborator_answer =
  stages :: "string list"
  outcome :: "string + synthesis"

text \<open>Modelled from the spec: the per-user state the backend core mutates (section 5).\<close>

record core_state =
  profiles :: "string \<rightharpoonup> PreferenceProfile"
  conversation_store :: conversations

text \<open>Modelled from the spec: the backend's \<open>GetProfile\<close> (section 4.3).\<close>

definition GetProfile :: "core_state \<Rightarrow> string \<Rightarrow> PreferenceProfile" where
  "GetProfile st userID = (case profiles st userID of None \<Rightarrow> emptyProfile | Some p \<Rightarrow> p)"

text \<open>
  Modelled from the spec: the terminal events of the backend, \<open>Result\<close> and \<open>Failure\<close>
  (section 3).
\<close>

fun is_terminal_event :: "event \<Rightarrow> bool" where
  "is_terminal_event (Progress _) = False"
| "is_terminal_event (Result _ _ _) = True"
| "is_terminal_event (Failure _) = True"

text \<open>
  Modelled from the spec: the backend's \<open>Submit\<close> (section 4.4, steps 1 to 5). \<open>chat\<close>
  selects the chat variant, \<open>now\<close> is the time of the completion. The result is the
  events in the order they are emitted, the final state of the session, and the state of
  the core.
\<close>

definition Submit ::
  "(string \<Rightarrow> string \<Rightarrow> Message list \<Rightarrow> collaborator_answer) \<Rightarrow> bool \<Rightarrow> nat \<Rightarrow> core_state \<Rightarrow>
   string \<Rightarrow> string \<Rightarrow> string option \<Rightarrow> event list \<times> session_state \<times> core_state"
where
  "Submit collaborator chat now st asked name userID =
     (let (store, context) =
            (case userID of
               None \<Rightarrow> (conversation_store st, [])
             | Some u \<Rightarrow> RecentWindow (conversation_store st) u default_window);
          st1 = st\<lparr>conversation_store := store\<rparr>;
          reply = collaborator asked name context;
          progress = Progress ''retrieving evidence'' # map Progress (stages reply)
      in case outcome reply of
           Inl reason \<Rightarrow> (progress @ [Failure reason], Failed, st1)
         | Inr syn \<Rightarrow>
             (progress @ [Result (syn_brief syn) (syn_evidence syn) (syn_followUps syn)],
              Completed,
              (case userID of
                 None \<Rightarrow> st1
               | Some u \<Rightarrow>
                   st1\<lparr>profiles :=
                         (profiles st1)(u \<mapsto> RecordQuery (GetProfile st1 u) name (syn_topics syn) now),
                       conversation_store :=
                         (if chat
                          then Append store u
                                 \<lparr>message_role = Assistant, message_text = syn_answer syn,
                                  occurredAt = now\<rparr>
                          else store)\<rparr>)))"

subsection \<open>The streaming endpoint\<close>






section \<open>Predicates used in the statements\<close>

text \<open>A string without white space at its first and at its last position.\<close>

definition no_outer_white :: "jsstring \<Rightarrow> bool" where
  "no_outer_white s \<longleftrightarrow> (s \<noteq> [] \<longrightarrow> \<not> is_white (hd s) \<and> \<not> is_white (last s))"

text \<open>The arguments \<open>onChunk\<close> receives when no invocation throws.\<close>

fun chunks :: "jsstring \<Rightarrow> jsstring list \<Rightarrow> jsstring list" where
  "chunks accumulated [] = []"
| "chunks accumulated (word # words) =
     trim (accumulated @ word @ [32]) # chunks (accumulated @ word @ [32]) words"

text \<open>
  Zero or more progress invocations, then exactly one terminal invocation, then nothing.
\<close>

definition progress_then_one_terminal :: "('l, 'r, 'e) callback list \<Rightarrow> bool" where
  "progress_then_one_terminal tr \<longleftrightarrow> length (dropWhile is_progress tr) = 1"

text \<open>The arguments of the \<open>onComplete\<close> invocations in a list of invocations.\<close>

fun complete_args :: "('l, 'r, 'e) callback list \<Rightarrow> 'r list" where
  "complete_args [] = []"
| "complete_args (OnComplete r # evs) = r # complete_args evs"
| "complete_args (_ # evs) = complete_args evs"

text \<open>
  The event source reports an error before it has delivered a message of type \<open>result\<close>.
\<close>

fun fails_before_result :: "'r stream_data sse_event list \<Rightarrow> bool" where
  "fails_before_result [] = False"
| "fails_before_result (ConnectionError # events) = True"
| "fails_before_result (Message None # events) = fails_before_result events"
| "fails_before_result (Message (Some data) # events) =
     (data_type data \<noteq> js ''result'' \<and> fails_before_result events)"

text \<open>
  The streaming transport is unavailable: the backend does not announce streaming, the
  event source cannot be constructed, or it errors before a result.
\<close>

definition transport_unavailable :: "('e, 'p, 's) world \<Rightarrow> QueryRequest \<Rightarrow> bool" where
  "transport_unavailable w request \<longleftrightarrow>
     \<not> checkStreamingSupport w \<or>
     (case event_source w (question request) (persona request) of
        Inl e \<Rightarrow> True
      | Inr events \<Rightarrow> fails_before_result events)"

text \<open>
  What the blocking form hands over for the request: the value \<open>query(request)\<close> returns,
  nothing when it throws.
\<close>

definition blocking_payload :: "('e, 'p, 's) world \<Rightarrow> QueryRequest \<Rightarrow> ('p, 's) query_result content list" where
  "blocking_payload w request =
     (case world_query w request of Inl e \<Rightarrow> [] | Inr result \<Rightarrow> [Payload result])"



text \<open>
  The text has a section for the keyword: at some position the keyword stands, in any
  case of its letters, and a full stop follows it somewhere.
\<close>

fun has_section :: "jsstring \<Rightarrow> jsstring \<Rightarrow> bool" where
  "has_section [] keyword = False"
| "has_section (c # cs) keyword =
     ((starts_with_ci (c # cs) keyword \<and> 46 \<in> set (drop (length keyword) (c # cs))) \<or>
      has_section cs keyword)"

text \<open>
  The section of a brief from the answer: the section of the first keyword, else that
  of the second keyword, else the fallback.
\<close>

definition section_or :: "jsstring \<Rightarrow> jsstring \<Rightarrow> jsstring \<Rightarrow> jsstring \<Rightarrow> jsstring" where
  "section_or a first second fallback =
     (case extractSection a first of
        Some m \<Rightarrow> m
      | None \<Rightarrow> (case extractSection a second of Some m \<Rightarrow> m | None \<Rightarrow> fallback))"

text \<open>The fixed sentences and questions of \<open>transformLegacyResponse\<close>.\<close>

definition default_contradiction :: jsstring where
  "default_contradiction = js ''No significant contradictions identified in the literature.''"

definition default_gap :: jsstring where
  "default_gap = js ''Additional research may be needed to fully address this question.''"

definition fixed_follow_ups :: "jsstring list" where
  "fixed_follow_ups =
     [js ''Can you provide more details about the methodology?'',
      js ''What are the implications for future missions?'',
      js ''Are there any ongoing studies on this topic?'']"

text \<open>
  The endpoint \<open>handleSubmit\<close> posts to, and the outcomes of that request on which the
  \<open>try\<close> block throws: \<open>fetch\<close> throws, the response is not \<open>ok\<close>, or its body is not JSON.
\<close>

definition endpoint_of :: "LoginState \<Rightarrow> jsstring" where
  "endpoint_of st = (if isLogin st then js ''/auth/login'' else js ''/auth/register'')"

definition authentication_fails ::
  "(jsstring \<Rightarrow> jsstring \<Rightarrow> jsstring \<Rightarrow> jsstring + fetch_response) \<Rightarrow> LoginState \<Rightarrow> bool" where
  "authentication_fails fetch st =
     (case fetch (endpoint_of st) (email st) (password st) of
        Inl message \<Rightarrow> True
      | Inr response \<Rightarrow>
          (if ok response then (case json response of Inl message \<Rightarrow> True | Inr data \<Rightarrow> False)
           else True))"

text \<open>The items of one session among the items saved.\<close>

definition of_session :: "jsstring \<Rightarrow> QueryHistoryItem list \<Rightarrow> QueryHistoryItem list" where
  "of_session sessionId items = filter (\<lambda>item. session_id item = sessionId) items"

text \<open>
  Modelled from the spec: a sequence of the backend's \<open>Append\<close> calls for one user, in
  order (section 8, P4).
\<close>

definition appends :: "conversations \<Rightarrow> string \<Rightarrow> Message list \<Rightarrow> conversations" where
  "appends store userID messages = foldl (\<lambda>s m. Append s userID m) store messages"

text \<open>
  Modelled from the spec: the conversation context the backend's \<open>Submit\<close> passes to the
  collaborator, "\<open>RecentWindow(userID, 5)\<close> if \<open>userID\<close> present, else empty" (section 4.4,
  step 2).
\<close>

definition submit_context :: "core_state \<Rightarrow> string option \<Rightarrow> Message list" where
  "submit_context st userID =
     (case userID of
        None \<Rightarrow> []
      | Some u \<Rightarrow> snd (RecentWindow (conversation_store st) u default_window))"

section \<open>Sample inputs\<close>

text \<open>A callback that returns normally, and one that throws \<open>e\<close>.\<close>

definition returns :: "'a \<Rightarrow> 'e option" where
  "returns x = None"

definition throws :: "'e \<Rightarrow> 'a \<Rightarrow> 'e option" where
  "throws e x = Some e"

text \<open>A request, a backend that is down, an answer of \<open>APIClient\<close>, and a legacy answer.\<close>

definition sample_request :: QueryRequest where
  "sample_request =
     \<lparr>question = js ''What is microgravity?'', persona = js ''Research Scientist'',
      conversation_history = None\<rparr>"

definition offline_world :: "(string, unit, unit) world" where
  "offline_world =
     \<lparr>toLowerCase = (\<lambda>s. s), stringify = (\<lambda>s. []), clock = (\<lambda>i. js ''10:00:00''),
      post_query = (\<lambda>request. Inl ''Network Error''),
      get_health = Inl ''Network Error'',
      event_source = (\<lambda>q p. Inr [])\<rparr>"

definition sample_response :: "unit AgentResponse" where
  "sample_response = \<lparr>answer = js ''a b'', extras = ()\<rparr>"

definition sample_post :: "unit \<Rightarrow> string + unit AgentResponse" where
  "sample_post request = Inr sample_response"

definition legacy_data :: "(unit, unit) response_data" where
  "legacy_data =
     \<lparr>data_answer = Some (js ''Microgravity reduces bone density.''), data_brief = None,
      data_publications = None, data_intermediate_steps = None\<rparr>"

definition legacy_world :: "(string, unit, unit) world" where
  "legacy_world =
     \<lparr>toLowerCase = (\<lambda>s. s), stringify = (\<lambda>s. []), clock = (\<lambda>i. js ''10:00:00''),
      post_query = (\<lambda>request. Inr legacy_data),
      get_health = Inr None,
      event_source = (\<lambda>q p. Inr [])\<rparr>"

text \<open>A backend that announces streaming and whose stream breaks after one log.\<close>

definition streaming_world :: "(string, unit, unit) world" where
  "streaming_world =
     \<lparr>toLowerCase = (\<lambda>s. s), stringify = (\<lambda>s. []), clock = (\<lambda>i. js ''10:00:00''),
      post_query = (\<lambda>request. Inr legacy_data),
      get_health = Inr (Some True),
      event_source = (\<lambda>q p. Inr
        [Message (Some \<lparr>data_type = js ''log'', data_content = Text (js ''Retrieving evidence'')\<rparr>),
         ConnectionError])\<rparr>"

text \<open>
  Answers of the backend that are not structured: one with the empty string as its
  answer, one with a brief of empty fields; and the world whose backend gives a fixed
  answer.
\<close>

definition empty_answer_data :: "(unit, unit) response_data" where
  "empty_answer_data =
     \<lparr>data_answer = Some [], data_brief = None,
      data_publications = None, data_intermediate_steps = None\<rparr>"

definition hollow_brief_data :: "(unit, unit) response_data" where
  "hollow_brief_data =
     \<lparr>data_answer = None, data_brief = Some \<lparr>consensus = [], contradiction = [], gap = []\<rparr>,
      data_publications = None, data_intermediate_steps = None\<rparr>"

definition answering :: "(unit, unit) response_data \<Rightarrow> (string, unit, unit) world" where
  "answering data =
     \<lparr>toLowerCase = (\<lambda>s. s), stringify = (\<lambda>s. []), clock = (\<lambda>i. js ''10:00:00''),
      post_query = (\<lambda>request. Inr data),
      get_health = Inr None,
      event_source = (\<lambda>q p. Inr [])\<rparr>"

text \<open>
  A login form filled in, a \<open>localStorage\<close> without entries, and a backend that rejects
  the credentials.
\<close>

definition sample_login :: LoginState where
  "sample_login =
     \<lparr>isLogin = True, email = js ''scientist@nasa.gov'', password = js ''wrong-password'',
      error = [], loading = False\<rparr>"

definition empty_localStorage :: localStorage where
  "empty_localStorage = Map.empty"

definition rejecting_fetch :: "jsstring \<Rightarrow> jsstring \<Rightarrow> jsstring \<Rightarrow> jsstring + fetch_response" where
  "rejecting_fetch endpoint mail pass =
     Inr \<lparr>ok = False,
          json = Inr \<lparr>detail = Some (js ''Incorrect email or password''), access_token = []\<rparr>\<rparr>"

text \<open>
  A history item, and a storage whose entry for the session \<open>s1\<close> is not JSON.
\<close>

definition sample_item :: "jsstring \<Rightarrow> jsstring \<Rightarrow> QueryHistoryItem" where
  "sample_item sessionId q =
     \<lparr>item_id = None, session_id = sessionId, item_query = q,
      item_persona = js ''Research Scientist'', item_timestamp = js ''2025-10-05T10:00:00Z'',
      item_answer = None\<rparr>"

definition corrupt_storage :: history_storage where
  "corrupt_storage = Map.empty(history_key (js ''s1'') \<mapsto> NotJson)"

text \<open>The profile of a user after one query with the persona \<open>A\<close>.\<close>

definition profile_A :: PreferenceProfile where
  "profile_A = RecordQuery emptyProfile ''A'' [] 0"

text \<open>
  A message, a collaborator that reports one stage and then times out, and a state with
  one user who has made one query and exchanged two messages.
\<close>

definition sample_message :: "nat \<Rightarrow> Message" where
  "sample_message i = \<lparr>message_role = User, message_text = ''What is microgravity?'', occurredAt = i\<rparr>"

definition failing_collaborator :: "string \<Rightarrow> string \<Rightarrow> Message list \<Rightarrow> collaborator_answer" where
  "failing_collaborator asked name context = \<lparr>stages = [''synthesizing''], outcome = Inl ''Timeout''\<rparr>"

definition sample_state :: core_state where
  "sample_state =
     \<lparr>profiles = Map.empty(''u1'' \<mapsto> profile_A),
      conversation_store = Map.empty(''u1'' \<mapsto> [sample_message 0, sample_message 1])\<rparr>"

text \<open>A legacy answer with a consensus section and a gap section.\<close>

definition sectioned_data :: "(unit, unit) response_data" where
  "sectioned_data =
     \<lparr>data_answer = Some (js ''Studies agree. The Consensus is bone loss. It is fast.'' @ [10, 10]
                           @ js ''A gap remains.''),
      data_brief = None, data_publications = None, data_intermediate_steps = None\<rparr>"



section \<open>Splitting, accumulating and trimming\<close>

lemma split_space_nonempty: "split_space s \<noteq> []"
  by (induction s) (auto split: list.splits)

lemma split_space_join: "concat (map (\<lambda>w. w @ [32]) (split_space s)) = s @ [32]"
proof (induction s)
  case Nil
  show ?case by simp
next
  case (Cons c cs)
  then show ?case
    by (cases "split_space cs") (auto simp: split_space_nonempty)
qed

lemma chunk_loop_returns:
  "\<forall>c. onChunk c = None \<Longrightarrow>
   chunk_loop onChunk acc ws = (map OnChunk (chunks acc ws), None)"
  by (induction ws arbitrary: acc) (simp_all add: Let_def)

lemma last_chunks:
  "ws \<noteq> [] \<Longrightarrow> last (chunks acc ws) = trim (acc @ concat (map (\<lambda>w. w @ [32]) ws))"
proof (induction ws arbitrary: acc)
  case Nil
  then show ?case by simp
next
  case (Cons w ws)
  show ?case
  proof (cases ws)
    case Nil
    then show ?thesis by simp
  next
    case (Cons v vs)
    then have "chunks (acc @ w @ [32]) ws \<noteq> []" by simp
    with Cons.IH [of "acc @ w @ [32]"] Cons show ?thesis by simp
  qed
qed

lemma chunks_nonempty: "ws \<noteq> [] \<Longrightarrow> chunks acc ws \<noteq> []"
  by (cases ws) simp_all

lemma trim_append_space: "no_outer_white s \<Longrightarrow> trim (s @ [32]) = s"
proof (cases s)
  case Nil
  then show ?thesis by (simp add: trim_def is_white_def)
next
  case (Cons c cs)
  assume "no_outer_white s"
  with Cons have h: "\<not> is_white c" and l: "\<not> is_white (last s)"
    by (auto simp: no_outer_white_def)
  have "dropWhile is_white (s @ [32]) = s @ [32]"
    using Cons h by simp
  moreover have "dropWhile is_white (rev (s @ [32])) = rev s"
  proof -
    have sp: "is_white 32" by (simp add: is_white_def)
    have "rev s \<noteq> []" using Cons by simp
    then have "rev s = hd (rev s) # tl (rev s)" by simp
    then obtain b where b: "rev s = last s # b" by (simp add: hd_rev)
    have "dropWhile is_white (rev s) = dropWhile is_white (last s # b)" by (simp only: b)
    also have "\<dots> = last s # b" using l by simp
    also have "\<dots> = rev s" by (simp only: b)
    finally have "dropWhile is_white (rev s) = rev s" .
    then show ?thesis using sp by simp
  qed
  ultimately show ?thesis by (simp add: trim_def)
qed

lemma chunk_args_map: "chunk_args (map OnChunk cs @ rest) = cs @ chunk_args rest"
  by (induction cs) simp_all


lemma chunk_loop_shape:
  "chunk_loop onChunk acc ws = (evs, r) \<Longrightarrow> list_all is_progress evs"
proof (induction ws arbitrary: acc evs r)
  case Nil
  then show ?case by simp
next
  case (Cons w ws)
  then show ?case
    by (auto simp: Let_def split: option.splits prod.splits)
qed

lemma log_loop_shape:
  "log_loop onLog logs = (evs, r) \<Longrightarrow> list_all is_progress evs"
proof (induction logs arbitrary: evs r)
  case Nil
  then show ?case by simp
next
  case (Cons l ls)
  then show ?case
    by (auto split: option.splits prod.splits)
qed

lemma dropWhile_progress_append:
  "list_all is_progress evs \<Longrightarrow> \<not> is_progress t \<Longrightarrow>
   dropWhile is_progress (evs @ t # ts) = t # ts"
  by (induction evs) simp_all

lemma dropWhile_progress_all:
  "list_all is_progress evs \<Longrightarrow> dropWhile is_progress evs = []"
  by (induction evs) simp_all

lemma filter_terminal_progress:
  "list_all is_progress evs \<Longrightarrow> filter is_terminal (evs @ ts) = filter is_terminal ts"
  by (induction evs) (simp_all add: is_terminal_def)

section \<open>The word-by-word replay reconstructs the answer\<close>

text \<open>
  C10. Let \<open>tr\<close> be the invocations of a call of \<open>streamQuery\<close> whose query returns a
  response with an answer free of leading and trailing white space, and whose \<open>onChunk\<close>
  returns normally. Then \<open>onChunk\<close> is invoked at least once, the argument of its final
  invocation is the answer itself, and the invocation right after the chunks is
  \<open>onComplete\<close> on the unmodified response.
\<close>

theorem streamQuery_roundtrip:
  fixes post :: "'q \<Rightarrow> 'e + 'x AgentResponse"
    and onComplete :: "'x AgentResponse \<Rightarrow> 'e option"
    and tr :: "('l, 'x AgentResponse, 'e) callback list"
  assumes "tr = streamQuery post onChunk onComplete request"
    and "no_outer_white (answer response)"
    and "post request = Inr response"
    and "\<forall>c. onChunk c = None"
  shows "chunk_args tr \<noteq> [] \<and> last (chunk_args tr) = answer response \<and>
         take (Suc (length (chunk_args tr))) tr = map OnChunk (chunk_args tr) @ [OnComplete response]"
proof -
  let ?cs = "chunks [] (split_space (answer response))"
  have loop: "chunk_loop onChunk [] (split_space (answer response)) = (map OnChunk ?cs, None)"
    using assms(4) by (rule chunk_loop_returns)
  define rest :: "('l, 'x AgentResponse, 'e) callback list"
    where "rest = (case onComplete response of None \<Rightarrow> [] | Some e \<Rightarrow> [OnError e])"
  have tr: "tr = map OnChunk ?cs @ OnComplete response # rest"
    using assms(3)
    by (simp add: assms(1) streamQuery_def APIClient_query_def loop rest_def split: option.splits)
  have rest: "chunk_args rest = []"
    by (simp add: rest_def split: option.splits)
  have args: "chunk_args tr = ?cs @ chunk_args rest"
    by (simp only: tr chunk_args_map) simp
  have ne: "?cs \<noteq> []"
    by (simp add: chunks_nonempty split_space_nonempty)
  have "last ?cs = trim (answer response @ [32])"
    by (simp add: last_chunks split_space_nonempty split_space_join)
  then have "last ?cs = answer response"
    using assms(2) by (simp add: trim_append_space)
  then show ?thesis
    using ne by (simp add: args rest) (simp add: tr)
qed


theorem streamQuery_roundtrip_witness:
  "no_outer_white (js ''a b'') \<and>
   last (chunk_args (streamQuery (\<lambda>q::unit. Inr \<lparr>answer = js ''a b'', extras = ()\<rparr>)
       (\<lambda>c. None) (\<lambda>r. None) () :: (unit, unit AgentResponse, unit) callback list))
     = js ''a b''"
proof -
  let ?r = "\<lparr>answer = js ''a b'', extras = ()\<rparr>"
  let ?post = "\<lambda>q::unit. (Inr ?r :: unit + unit AgentResponse)"
  let ?tr = "streamQuery ?post (\<lambda>c. None) (\<lambda>r. None) () :: (unit, unit AgentResponse, unit) callback list"
  have h: "no_outer_white (answer ?r)"
    by (simp add: no_outer_white_def js_def is_white_def)
  have "chunk_args ?tr \<noteq> [] \<and> last (chunk_args ?tr) = answer ?r \<and>
        take (Suc (length (chunk_args ?tr))) ?tr = map OnChunk (chunk_args ?tr) @ [OnComplete ?r]"
    by (rule streamQuery_roundtrip [OF refl h]) simp_all
  then have "last (chunk_args ?tr) = js ''a b''" by simp
  with h show ?thesis by simp
qed

section \<open>Order of the callbacks of a streaming call\<close>

lemma streamQuery_shape:
  fixes tr :: "('l, 'x AgentResponse, 'e) callback list"
  assumes "tr = streamQuery post onChunk onComplete request"
  shows "\<exists>evs ts. tr = evs @ ts \<and> list_all is_progress evs \<and>
           ((\<exists>e. ts = [OnError e]) \<or> (\<exists>r. ts = [OnComplete r] \<and> onComplete r = None) \<or>
            (\<exists>r e. ts = [OnComplete r, OnError e] \<and> onComplete r = Some e))"
proof (cases "APIClient_query post request")
  case (Inl e)
  then have "tr = [] @ [OnError e]" by (simp add: assms streamQuery_def)
  then show ?thesis by (intro exI [of _ "[]"] exI [of _ "[OnError e]"]) simp
next
  case (Inr response)
  obtain evs r where loop: "chunk_loop onChunk [] (split_space (answer response)) = ((evs :: ('l, 'x AgentResponse, 'e) callback list), r)"
    by (cases "chunk_loop onChunk [] (split_space (answer response)) :: ('l, 'x AgentResponse, 'e) callback list \<times> 'e option") auto
  then have p: "list_all is_progress evs" by (rule chunk_loop_shape)
  show ?thesis
  proof (cases r)
    case (Some e)
    then have "tr = evs @ [OnError e]" using Inr loop by (simp add: assms streamQuery_def)
    with p show ?thesis by blast
  next
    case None
    show ?thesis
    proof (cases "onComplete response")
      case None
      then have "tr = evs @ [OnComplete response]"
        using Inr loop \<open>r = None\<close> by (simp add: assms streamQuery_def)
      with p None show ?thesis by blast
    next
      case (Some e)
      then have "tr = evs @ [OnComplete response, OnError e]"
        using Inr loop \<open>r = None\<close> by (simp add: assms streamQuery_def)
      with p Some show ?thesis by blast
    qed
  qed
qed

lemma simulateStreaming_shape:
  assumes "tr = fst (simulateStreaming w onLog onComplete request)"
  shows "\<exists>evs. list_all is_progress evs \<and>
           (tr = evs \<or> (\<exists>r. tr = evs @ [OnComplete (Payload r)] \<and> world_query w request = Inr r))"
proof -
  obtain evs r where loop: "log_loop onLog (simulatedLogs (clock w)) = (evs, r)"
    by (cases "log_loop onLog (simulatedLogs (clock w))") auto
  then have p: "list_all is_progress evs" by (rule log_loop_shape)
  show ?thesis
  proof (cases r)
    case (Some e)
    then have "tr = evs" using loop by (simp add: assms simulateStreaming_def)
    with p show ?thesis by blast
  next
    case None
    show ?thesis
    proof (cases "world_query w request")
      case (Inl e)
      then have "tr = evs" using loop None by (simp add: assms simulateStreaming_def)
      with p show ?thesis by blast
    next
      case (Inr res)
      then have "tr = evs @ [OnComplete (Payload res)]"
        using loop None by (simp add: assms simulateStreaming_def)
      with p Inr show ?thesis by blast
    qed
  qed
qed

lemma simulateStreaming_failed_query:
  assumes "world_query w request = Inl e"
  shows "list_all is_progress (fst (simulateStreaming w onLog onComplete request))"
proof -
  obtain evs r where loop: "log_loop onLog (simulatedLogs (clock w)) = (evs, r)"
    by (cases "log_loop onLog (simulatedLogs (clock w))") auto
  then have p: "list_all is_progress evs" by (rule log_loop_shape)
  have "fst (simulateStreaming w onLog onComplete request) = evs"
    using loop assms by (cases r) (simp_all add: simulateStreaming_def)
  with p show ?thesis by simp
qed

lemma log_loop_returns:
  "\<forall>l. onLog l = None \<Longrightarrow> log_loop onLog logs = (map (\<lambda>l. OnLog (Text l)) logs, None)"
  by (induction logs) simp_all

lemma terminal_simps:
  "is_terminal (OnComplete r)" "is_terminal (OnError e)"
  "\<not> is_terminal (OnChunk c)" "\<not> is_terminal (OnLog l)"
  by (simp_all add: is_terminal_def)

lemma filter_terminal_none: "list_all is_progress evs \<Longrightarrow> filter is_terminal evs = []"
  by (induction evs) (simp_all add: is_terminal_def)

text \<open>
  C1 (amended). In every call of \<open>streamQuery\<close> the \<open>onChunk\<close> invocations come first and
  only terminal invocations follow them, at least one terminal callback is invoked, and
  exactly one of \<open>onComplete\<close> and \<open>onError\<close> is invoked when \<open>onComplete\<close> returns
  normally. In every call of \<open>simulateStreaming\<close> the \<open>onLog\<close> invocations come first,
  at most one terminal invocation follows and it is the last one; it is \<open>onComplete\<close> on
  the result of the query when no \<open>onLog\<close> throws and the query succeeds, and there is no
  terminal invocation at all when the query fails, since \<open>simulateStreaming\<close> has no
  error callback.
\<close>

theorem streaming_callbacks_order:
  fixes post :: "'q \<Rightarrow> 'e + 'x AgentResponse"
    and tr :: "('l, 'x AgentResponse, 'e) callback list"
    and w :: "('f, 'p, 's) world"
  assumes "tr = streamQuery post onChunk onComplete request"
    and "tr' = fst (simulateStreaming w onLog onComplete' request')"
  shows "list_all is_terminal (dropWhile is_progress tr) \<and>
         filter is_terminal tr \<noteq> [] \<and>
         ((\<forall>r. onComplete r = None) \<longrightarrow> progress_then_one_terminal tr) \<and>
         list_all is_terminal (dropWhile is_progress tr') \<and>
         length (filter is_terminal tr') \<le> 1 \<and>
         ((\<forall>l. onLog l = None) \<and> world_query w request' = Inr result \<longrightarrow>
            progress_then_one_terminal tr' \<and> last tr' = OnComplete (Payload result)) \<and>
         (world_query w request' = Inl err \<longrightarrow> filter is_terminal tr' = [])"
proof -
  obtain evs ts where s: "tr = evs @ ts" "list_all is_progress evs"
    "(\<exists>e. ts = [OnError e]) \<or> (\<exists>r. ts = [OnComplete r] \<and> onComplete r = None) \<or>
     (\<exists>r e. ts = [OnComplete r, OnError e] \<and> onComplete r = Some e)"
    using streamQuery_shape [OF assms(1)] by blast
  from s(3) obtain t ts' where ts: "ts = t # ts'" "is_terminal t" "list_all is_terminal ts'"
    by (auto simp: terminal_simps)
  have d: "dropWhile is_progress tr = ts"
    using s ts by (simp add: dropWhile_progress_append is_terminal_def)
  have 1: "list_all is_terminal (dropWhile is_progress tr)"
    using d ts by simp
  have 2: "filter is_terminal tr \<noteq> []"
    using s ts by (simp add: filter_terminal_progress)
  have 3: "(\<forall>r. onComplete r = None) \<longrightarrow> progress_then_one_terminal tr"
    using s(3) d by (auto simp: progress_then_one_terminal_def)
  obtain evs' where s': "list_all is_progress evs'"
    "tr' = evs' \<or> (\<exists>r. tr' = evs' @ [OnComplete (Payload r)] \<and> world_query w request' = Inr r)"
    using simulateStreaming_shape [OF assms(2)] by blast
  have 4: "list_all is_terminal (dropWhile is_progress tr')"
    using s' by (auto simp: dropWhile_progress_all dropWhile_progress_append terminal_simps)
  have 5: "length (filter is_terminal tr') \<le> 1"
    using s' by (auto simp: filter_terminal_none filter_terminal_progress terminal_simps)
  have 6: "(\<forall>l. onLog l = None) \<and> world_query w request' = Inr result \<longrightarrow>
            progress_then_one_terminal tr' \<and> last tr' = OnComplete (Payload result)"
  proof
    assume h: "(\<forall>l. onLog l = None) \<and> world_query w request' = Inr result"
    then have "log_loop onLog (simulatedLogs (clock w)) =
        (map (\<lambda>l. OnLog (Text l)) (simulatedLogs (clock w)), None)"
      by (simp add: log_loop_returns)
    with h have eq: "tr' = map (\<lambda>l. OnLog (Text l)) (simulatedLogs (clock w)) @ [OnComplete (Payload result)]"
      by (simp add: assms(2) simulateStreaming_def)
    have "list_all is_progress (map (\<lambda>l. OnLog (Text l)) (simulatedLogs (clock w)) :: ('f, 'p, 's) invocation list)"
      by (simp add: list_all_iff)
    then show "progress_then_one_terminal tr' \<and> last tr' = OnComplete (Payload result)"
      by (simp add: eq progress_then_one_terminal_def dropWhile_progress_append)
  qed
  have 7: "world_query w request' = Inl err \<longrightarrow> filter is_terminal tr' = []"
    using simulateStreaming_failed_query [of w request' err onLog onComplete']
    by (auto simp: assms(2) filter_terminal_none)
  from 1 2 3 4 5 6 7 show ?thesis by blast
qed


text \<open>
  The claim as stated fails: with the backend down \<open>simulateStreaming\<close> invokes the eight
  logs and no terminal callback, and \<open>streamQuery\<close> invokes both \<open>onComplete\<close> and
  \<open>onError\<close> when \<open>onComplete\<close> throws.
\<close>

theorem streaming_one_terminal_counterexample:
  "\<not> progress_then_one_terminal (fst (simulateStreaming offline_world returns returns sample_request)) \<and>
   \<not> progress_then_one_terminal
       (streamQuery sample_post returns (throws ''callback failed'') ()
          :: (unit, unit AgentResponse, string) callback list)"
proof -
  have "fst (simulateStreaming offline_world returns returns sample_request) =
          map (\<lambda>l. OnLog (Text l)) (simulatedLogs (clock offline_world))"
    by (simp add: simulateStreaming_def log_loop_returns returns_def world_query_def query_def
        offline_world_def)
  moreover have "(streamQuery sample_post returns (throws ''callback failed'') ()
          :: (unit, unit AgentResponse, string) callback list) =
        [OnChunk (js ''a''), OnChunk (js ''a b''), OnComplete sample_response,
         OnError ''callback failed'']"
    by (simp add: streamQuery_def APIClient_query_def sample_post_def sample_response_def
        returns_def throws_def js_def trim_def is_white_def Let_def)
  ultimately show ?thesis
    by (simp add: progress_then_one_terminal_def simulatedLogs_def)
qed

theorem streaming_callbacks_order_witness:
  "progress_then_one_terminal
     (streamQuery sample_post returns returns () :: (unit, unit AgentResponse, string) callback list) \<and>
   progress_then_one_terminal (fst (simulateStreaming legacy_world returns returns sample_request)) \<and>
   filter is_terminal (fst (simulateStreaming offline_world returns returns sample_request)) = []"
proof -
  let ?tr = "streamQuery sample_post returns returns () :: (unit, unit AgentResponse, string) callback list"
  let ?res = "Transformed (transformLegacyResponse (toLowerCase legacy_world) (stringify legacy_world) legacy_data)"
  have q: "world_query legacy_world sample_request = Inr ?res"
    by (simp add: world_query_def query_def legacy_world_def legacy_data_def js_def)
  have f: "world_query offline_world sample_request = Inl ''Network Error''"
    by (simp add: world_query_def query_def offline_world_def)
  have r: "\<forall>x. (returns x :: string option) = None"
    by (simp add: returns_def)
  have a: "progress_then_one_terminal ?tr"
    using streaming_callbacks_order [OF refl refl, of sample_post returns returns "()" legacy_world returns returns
        sample_request ?res "''none''"] r by blast
  have b: "progress_then_one_terminal (fst (simulateStreaming legacy_world returns returns sample_request))"
    using streaming_callbacks_order [OF refl refl, of sample_post returns returns "()" legacy_world returns returns
        sample_request ?res "''none''", where 'l = unit] q r by blast
  have c: "filter is_terminal (fst (simulateStreaming offline_world returns returns sample_request)) = []"
    using streaming_callbacks_order [OF refl refl, of sample_post returns returns "()" offline_world returns returns
        sample_request ?res "''Network Error''", where 'l = unit] f by blast
  from a b c show ?thesis by blast
qed

section \<open>The degraded mode hands over the value of the blocking query\<close>

lemma complete_args_progress: "list_all is_progress evs \<Longrightarrow> complete_args (evs @ ts) = complete_args ts"
proof (induction evs)
  case Nil
  show ?case by simp
next
  case (Cons ev evs)
  then show ?case by (cases ev) simp_all
qed

lemma complete_args_query_then: "complete_args (query_then w request) = blocking_payload w request"
  by (simp add: query_then_def blocking_payload_def split: sum.splits)

lemma onmessage_loop_fallback:
  "fails_before_result events \<Longrightarrow>
   complete_args (onmessage_loop w onComplete request events) = blocking_payload w request"
  by (induction events rule: fails_before_result.induct)
     (simp_all add: complete_args_query_then)

lemma simulateStreaming_completes:
  "complete_args (fst (simulateStreaming w onLog onComplete request)) = []
   \<or> complete_args (fst (simulateStreaming w onLog onComplete request)) = blocking_payload w request"
proof -
  obtain evs r where loop: "log_loop onLog (simulatedLogs (clock w)) = (evs, r)"
    by (cases "log_loop onLog (simulatedLogs (clock w))") auto
  then have p: "list_all is_progress evs" by (rule log_loop_shape)
  from p have e: "complete_args evs = []" using complete_args_progress [of evs "[]"] by simp
  show ?thesis
    using loop e complete_args_progress [OF p]
    by (cases r; cases "world_query w request")
       (simp_all add: simulateStreaming_def blocking_payload_def)
qed

lemma simulateStreaming_returns:
  fixes w :: "('e, 'p, 's) world"
  assumes "\<forall>l. onLog l = None"
  shows "complete_args (fst (simulateStreaming w onLog onComplete request)) = blocking_payload w request"
proof -
  let ?evs = "map (\<lambda>l. OnLog (Text l)) (simulatedLogs (clock w)) :: ('e, 'p, 's) invocation list"
  have loop: "log_loop onLog (simulatedLogs (clock w)) = (?evs, None)"
    using assms by (rule log_loop_returns)
  have p: "list_all is_progress ?evs" by (simp add: list_all_iff)
  from p have e: "complete_args ?evs = []" using complete_args_progress [of ?evs "[]"] by simp
  show ?thesis
    using e complete_args_progress [OF p]
    by (cases "world_query w request")
       (simp_all add: simulateStreaming_def blocking_payload_def loop)
qed

text \<open>
  C4. When the streaming transport is unavailable, every \<open>onComplete\<close> invocation of
  \<open>queryWithStreaming\<close> carries the value that \<open>query(request)\<close> returns for the same
  request, there is at most one such invocation, and there is exactly one whenever the
  blocking query returns and no \<open>onLog\<close> throws. Likewise \<open>streamQuery\<close> completes with
  the value of its blocking \<open>query\<close>.
\<close>

theorem degraded_mode_same_payload:
  fixes w :: "('e, 'p, 's) world"
    and post :: "'q \<Rightarrow> 'e + 'x AgentResponse"
    and tr :: "('l, 'x AgentResponse, 'e) callback list"
  assumes "transport_unavailable w request"
    and "tr = streamQuery post onChunk onComplete' request'"
  shows "(complete_args (queryWithStreaming w onLog onComplete request) = [] \<or>
          complete_args (queryWithStreaming w onLog onComplete request) = blocking_payload w request) \<and>
         ((\<forall>l. onLog l = None) \<longrightarrow>
            complete_args (queryWithStreaming w onLog onComplete request) = blocking_payload w request) \<and>
         (complete_args tr = [] \<or> map Inr (complete_args tr) = [APIClient_query post request'])"
proof -
  have s: "complete_args tr = [] \<or> map Inr (complete_args tr) = [APIClient_query post request']"
  proof (cases "APIClient_query post request'")
    case (Inl e)
    then show ?thesis by (simp add: assms(2) streamQuery_def)
  next
    case (Inr response)
    obtain evs r where loop: "chunk_loop onChunk [] (split_space (answer response)) = ((evs :: ('l, 'x AgentResponse, 'e) callback list), r)"
      by (cases "chunk_loop onChunk [] (split_space (answer response)) :: ('l, 'x AgentResponse, 'e) callback list \<times> 'e option") auto
    then have p: "list_all is_progress evs" by (rule chunk_loop_shape)
    show ?thesis
      using Inr loop complete_args_progress [OF p]
      by (cases r; cases "onComplete' response") (simp_all add: assms(2) streamQuery_def)
  qed
  show ?thesis
  proof (cases "checkStreamingSupport w")
    case False
    then show ?thesis
      using s simulateStreaming_completes [of w onLog onComplete request]
        simulateStreaming_returns [of onLog w onComplete request]
      by (simp add: queryWithStreaming_def)
  next
    case True
    show ?thesis
    proof (cases "event_source w (question request) (persona request)")
      case (Inl e)
      then show ?thesis using True s
        by (simp add: queryWithStreaming_def complete_args_query_then)
    next
      case (Inr events)
      then have "fails_before_result events"
        using assms(1) True by (simp add: transport_unavailable_def)
      then show ?thesis using True Inr s
        by (simp add: queryWithStreaming_def onmessage_loop_fallback)
    qed
  qed
qed

theorem degraded_mode_same_payload_witness:
  "transport_unavailable streaming_world sample_request \<and>
   transport_unavailable legacy_world sample_request \<and>
   complete_args (queryWithStreaming streaming_world returns returns sample_request)
     = blocking_payload streaming_world sample_request \<and>
   complete_args (queryWithStreaming legacy_world returns returns sample_request)
     = blocking_payload legacy_world sample_request \<and>
   blocking_payload legacy_world sample_request
     = [Payload (Transformed (transformLegacyResponse (\<lambda>s. s) (\<lambda>s. []) legacy_data))]"
proof -
  have u: "transport_unavailable streaming_world sample_request"
    by (simp add: transport_unavailable_def streaming_world_def checkStreamingSupport_def js_def)
  have v: "transport_unavailable legacy_world sample_request"
    by (simp add: transport_unavailable_def legacy_world_def checkStreamingSupport_def)
  have r: "\<forall>x. (returns x :: string option) = None"
    by (simp add: returns_def)
  have a: "complete_args (queryWithStreaming streaming_world returns returns sample_request)
     = blocking_payload streaming_world sample_request"
    using degraded_mode_same_payload [OF u refl, of returns returns sample_post returns returns "()", where 'l = unit] r
    by blast
  have b: "complete_args (queryWithStreaming legacy_world returns returns sample_request)
     = blocking_payload legacy_world sample_request"
    using degraded_mode_same_payload [OF v refl, of returns returns sample_post returns returns "()", where 'l = unit] r
    by blast
  have c: "blocking_payload legacy_world sample_request
     = [Payload (Transformed (transformLegacyResponse (\<lambda>s. s) (\<lambda>s. []) legacy_data))]"
    by (simp add: blocking_payload_def world_query_def query_def legacy_world_def legacy_data_def js_def)
  from u v a b c show ?thesis by blast
qed

section \<open>The wire format of the streamed response\<close>








section \<open>The brief of a transformed legacy answer\<close>

lemma match_here_nonempty: "match_here keyword text = Some m \<Longrightarrow> m \<noteq> []"
  by (auto simp: match_here_def Let_def split: if_splits list.splits)

lemma extractSection_nonempty: "extractSection text keyword = Some m \<Longrightarrow> m \<noteq> []"
  by (induction "text") (auto dest: match_here_nonempty split: option.splits)

lemma or_else_nonempty: "d \<noteq> [] \<Longrightarrow> or_else x d \<noteq> []"
  by (cases x) simp_all

lemma or_else_None: "or_else None d = d"
  by simp

lemma or_else_extract: "or_else (extractSection text keyword) d =
  (case extractSection text keyword of None \<Rightarrow> d | Some m \<Rightarrow> m)"
  by (cases "extractSection text keyword") (auto dest: extractSection_nonempty)

lemma defaults_nonempty: "default_contradiction \<noteq> []" "default_gap \<noteq> []"
  by (simp_all add: default_contradiction_def default_gap_def js_def)

lemma until_blank_line_prefix: "\<exists>rest. text = until_blank_line text @ rest"
  by (induction "text" rule: until_blank_line.induct) auto

lemma match_here_prefix:
  assumes "match_here keyword text = Some m"
  shows "\<exists>rest. text = m @ rest"
proof -
  let ?rest = "drop (length keyword) text"
  from assms obtain dot tail where d: "dropWhile (\<lambda>c. c \<noteq> 46) ?rest = dot # tail"
    and m: "m = take (length keyword) text @ takeWhile (\<lambda>c. c \<noteq> 46) ?rest @ [dot] @ until_blank_line tail"
    by (auto simp: match_here_def Let_def split: if_splits list.splits)
  obtain r where r: "tail = until_blank_line tail @ r"
    using until_blank_line_prefix by blast
  have "text = take (length keyword) text @ ?rest" by simp
  also have "?rest = takeWhile (\<lambda>c. c \<noteq> 46) ?rest @ dropWhile (\<lambda>c. c \<noteq> 46) ?rest" by simp
  also have "dropWhile (\<lambda>c. c \<noteq> 46) ?rest = dot # until_blank_line tail @ r"
    using d r by simp
  finally have "text = m @ r" by (simp add: m)
  then show ?thesis ..
qed

lemma extractSection_within:
  "extractSection text keyword = Some m \<Longrightarrow> \<exists>before rest. text = before @ m @ rest"
proof (induction "text")
  case Nil
  then show ?case using match_here_prefix [of keyword "[]" m] by auto
next
  case (Cons c cs)
  show ?case
  proof (cases "match_here keyword (c # cs)")
    case (Some m')
    with Cons.prems have "m' = m" by simp
    with Some obtain rest where "c # cs = m @ rest" using match_here_prefix by blast
    then have "c # cs = [] @ m @ rest" by simp
    then show ?thesis by blast
  next
    case None
    with Cons.prems have "extractSection cs keyword = Some m" by simp
    then obtain before rest where "cs = before @ m @ rest" using Cons.IH by blast
    then have "c # cs = (c # before) @ m @ rest" by simp
    then show ?thesis by blast
  qed
qed

lemma starts_with_append: "starts_with (m @ rest) m"
  by (induction m) simp_all

lemma js_includes_start: "starts_with xs m \<Longrightarrow> js_includes xs m"
  by (cases xs) simp_all

lemma js_includes_append: "js_includes (before @ m @ rest) m"
  by (induction before) (simp_all add: js_includes_start starts_with_append)

lemma starts_with_ci_take:
  "starts_with_ci t keyword \<Longrightarrow> starts_with_ci (take (length keyword) t @ xs) keyword"
  by (induction t keyword rule: starts_with_ci.induct) simp_all

lemma dropWhile_stop: "dropWhile (\<lambda>c. c \<noteq> 46) xs = [] \<longleftrightarrow> (46::nat) \<notin> set xs"
  by (induction xs) auto

lemma match_here_None:
  "match_here keyword t = None \<longleftrightarrow>
     \<not> (starts_with_ci t keyword \<and> 46 \<in> set (drop (length keyword) t))"
proof -
  define r where "r = dropWhile (\<lambda>c. c \<noteq> 46) (drop (length keyword) t)"
  have m: "match_here keyword t =
      (if starts_with_ci t keyword then
         (case r of
            [] \<Rightarrow> None
          | dot # tail \<Rightarrow>
              Some (take (length keyword) t
                    @ takeWhile (\<lambda>c. c \<noteq> 46) (drop (length keyword) t) @ [dot]
                    @ until_blank_line tail))
       else None)"
    by (simp add: match_here_def Let_def r_def)
  have d: "r = [] \<longleftrightarrow> 46 \<notin> set (drop (length keyword) t)"
    unfolding r_def by (rule dropWhile_stop)
  show ?thesis
    unfolding m using d by (cases r) auto
qed

lemma extractSection_None: "extractSection t keyword = None \<longleftrightarrow> \<not> has_section t keyword"
proof (induction t)
  case Nil
  show ?case by (simp add: match_here_None)
next
  case (Cons c cs)
  let ?A = "starts_with_ci (c # cs) keyword \<and> 46 \<in> set (drop (length keyword) (c # cs))"
  have h: "has_section (c # cs) keyword \<longleftrightarrow> ?A \<or> has_section cs keyword"
    by simp
  show ?case
  proof (cases "match_here keyword (c # cs)")
    case None
    then have "\<not> ?A" by (simp add: match_here_None)
    moreover have "extractSection (c # cs) keyword = extractSection cs keyword"
      using None by simp
    ultimately show ?thesis unfolding h using Cons by simp
  next
    case (Some m)
    have "?A"
    proof (rule ccontr)
      assume "\<not> ?A"
      then have "match_here keyword (c # cs) = None" by (simp add: match_here_None)
      with Some show False by simp
    qed
    moreover have "extractSection (c # cs) keyword = Some m"
      using Some by simp
    ultimately show ?thesis unfolding h by simp
  qed
qed

lemma match_here_sound:
  assumes "match_here keyword t = Some m"
  shows "starts_with_ci m keyword \<and> 46 \<in> set m"
proof -
  let ?rest = "drop (length keyword) t"
  from assms obtain dot tail where s: "starts_with_ci t keyword"
    and d: "dropWhile (\<lambda>c. c \<noteq> 46) ?rest = dot # tail"
    and m: "m = take (length keyword) t @ takeWhile (\<lambda>c. c \<noteq> 46) ?rest @ [dot] @ until_blank_line tail"
    by (auto simp: match_here_def Let_def split: if_splits list.splits)
  from d have "dot = 46" using hd_dropWhile [of "\<lambda>c. c \<noteq> 46" ?rest] by auto
  with s m show ?thesis by (simp add: starts_with_ci_take)
qed

lemma extractSection_sound:
  assumes "extractSection t keyword = Some m"
  shows "starts_with_ci m keyword \<and> 46 \<in> set m \<and> js_includes t m"
proof -
  have "starts_with_ci m keyword \<and> 46 \<in> set m"
    using assms
  proof (induction t)
    case Nil
    then show ?case using match_here_sound [of keyword "[]" m] by simp
  next
    case (Cons c cs)
    then show ?case
      using match_here_sound [of keyword "c # cs" m]
      by (cases "match_here keyword (c # cs)") simp_all
  qed
  moreover have "js_includes t m"
    using extractSection_within [OF assms] js_includes_append by blast
  ultimately show ?thesis by blast
qed

lemma match_here_shape:
  assumes "match_here keyword t = Some m"
  shows "\<exists>body tail. starts_with_ci t keyword \<and> drop (length keyword) t = body @ 46 # tail \<and>
           46 \<notin> set body \<and> m = take (length keyword) t @ body @ 46 # until_blank_line tail"
proof -
  let ?rest = "drop (length keyword) t"
  from assms obtain dot tail where s: "starts_with_ci t keyword"
    and d: "dropWhile (\<lambda>c. c \<noteq> 46) ?rest = dot # tail"
    and m: "m = take (length keyword) t @ takeWhile (\<lambda>c. c \<noteq> 46) ?rest @ [dot] @ until_blank_line tail"
    by (auto simp: match_here_def Let_def split: if_splits list.splits)
  from d have dot: "dot = 46" using hd_dropWhile [of "\<lambda>c. c \<noteq> 46" ?rest] by auto
  have "?rest = takeWhile (\<lambda>c. c \<noteq> 46) ?rest @ dropWhile (\<lambda>c. c \<noteq> 46) ?rest" by simp
  then have r: "?rest = takeWhile (\<lambda>c. c \<noteq> 46) ?rest @ 46 # tail" using d dot by simp
  have n: "46 \<notin> set (takeWhile (\<lambda>c. c \<noteq> 46) ?rest)"
    using set_takeWhileD by fastforce
  show ?thesis
    by (intro exI [of _ "takeWhile (\<lambda>c. c \<noteq> 46) ?rest"] exI [of _ tail])
       (use s r n m dot in simp)
qed

lemma extractSection_shape:
  "extractSection t keyword = Some m \<Longrightarrow>
   \<exists>before rest body tail.
      t = before @ rest \<and>
      (\<forall>i<length before.
         \<not> (starts_with_ci (drop i t) keyword \<and> 46 \<in> set (drop (i + length keyword) t))) \<and>
      starts_with_ci rest keyword \<and> drop (length keyword) rest = body @ 46 # tail \<and>
      46 \<notin> set body \<and> m = take (length keyword) rest @ body @ 46 # until_blank_line tail"
proof (induction t)
  case Nil
  then have "match_here keyword [] = Some m" by simp
  from match_here_shape [OF this] obtain body tail where
    "starts_with_ci [] keyword \<and> drop (length keyword) [] = body @ 46 # tail \<and>
           46 \<notin> set body \<and> m = take (length keyword) [] @ body @ 46 # until_blank_line tail"
    by blast
  then show ?case by simp
next
  case (Cons c cs)
  show ?case
  proof (cases "match_here keyword (c # cs)")
    case (Some m')
    with Cons.prems have "m' = m" by simp
    with Some have "match_here keyword (c # cs) = Some m" by simp
    from match_here_shape [OF this] obtain body tail where
      b: "starts_with_ci (c # cs) keyword \<and> drop (length keyword) (c # cs) = body @ 46 # tail \<and>
           46 \<notin> set body \<and> m = take (length keyword) (c # cs) @ body @ 46 # until_blank_line tail"
      by blast
    show ?thesis
      by (intro exI [of _ "[]"] exI [of _ "c # cs"] exI [of _ body] exI [of _ tail])
         (use b in simp)
  next
    case None
    with Cons.prems have "extractSection cs keyword = Some m" by simp
    from Cons.IH [OF this] obtain before rest body tail where
      ih: "cs = before @ rest"
      "\<forall>i<length before.
         \<not> (starts_with_ci (drop i cs) keyword \<and> 46 \<in> set (drop (i + length keyword) cs))"
      "starts_with_ci rest keyword \<and> drop (length keyword) rest = body @ 46 # tail \<and>
      46 \<notin> set body \<and> m = take (length keyword) rest @ body @ 46 # until_blank_line tail"
      by blast
    have z: "\<not> (starts_with_ci (c # cs) keyword \<and> 46 \<in> set (drop (length keyword) (c # cs)))"
      using None by (simp add: match_here_None)
    have l: "\<forall>i<length (c # before).
         \<not> (starts_with_ci (drop i (c # cs)) keyword \<and>
            46 \<in> set (drop (i + length keyword) (c # cs)))"
    proof (intro allI impI)
      fix i assume "i < length (c # before)"
      show "\<not> (starts_with_ci (drop i (c # cs)) keyword \<and>
            46 \<in> set (drop (i + length keyword) (c # cs)))"
      proof (cases i)
        case 0
        then show ?thesis using z by simp
      next
        case (Suc j)
        with \<open>i < length (c # before)\<close> have "j < length before" by simp
        with ih(2) Suc show ?thesis by simp
      qed
    qed
    show ?thesis
      by (intro exI [of _ "c # before"] exI [of _ rest] exI [of _ body] exI [of _ tail])
         (use ih l in simp)
  qed
qed

lemma until_blank_line_stops:
  "\<exists>r. tail = until_blank_line tail @ r \<and> (r = [] \<or> take 2 r = [10, 10]) \<and>
       \<not> js_includes (until_blank_line tail @ take 1 r) [10, 10]"
proof (induction tail rule: until_blank_line.induct)
  case 1
  show ?case by simp
next
  case (2 c)
  show ?case by (intro exI [of _ "[]"]) simp
next
  case (3 c d cs)
  show ?case
  proof (cases "c = 10 \<and> d = 10")
    case True
    then show ?thesis by (intro exI [of _ "c # d # cs"]) simp
  next
    case False
    with 3 obtain r where r: "d # cs = until_blank_line (d # cs) @ r"
      "r = [] \<or> take 2 r = [10, 10]"
      "\<not> js_includes (until_blank_line (d # cs) @ take 1 r) [10, 10]"
      by blast
    have hd: "until_blank_line (d # cs) @ take 1 r \<noteq> [] \<and> hd (until_blank_line (d # cs) @ take 1 r) = d"
    proof (cases "until_blank_line (d # cs)")
      case Nil
      with r(1) have "r = d # cs" by simp
      with Nil show ?thesis by simp
    next
      case (Cons x xs)
      with r(1) have "x = d" by (metis append_Cons list.inject)
      with Cons show ?thesis by simp
    qed
    then obtain ys where ys: "until_blank_line (d # cs) @ take 1 r = d # ys"
      by (cases "until_blank_line (d # cs) @ take 1 r") auto
    have "\<not> js_includes (d # ys) [10, 10]"
      using r(3) by (simp only: ys) simp
    then have n: "\<not> js_includes (c # d # ys) [10, 10]"
      using False by auto
    have u: "until_blank_line (c # d # cs) = c # until_blank_line (d # cs)"
      using False by auto
    have 1: "c # d # cs = until_blank_line (c # d # cs) @ r"
      unfolding u using r(1) by simp
    have e: "until_blank_line (c # d # cs) @ take 1 r = c # d # ys"
      unfolding u using ys by simp
    have 3: "\<not> js_includes (until_blank_line (c # d # cs) @ take 1 r) [10, 10]"
      unfolding e by (rule n)
    from 1 r(2) 3 show ?thesis by blast
  qed
qed

lemma section_or_nonempty: "fallback \<noteq> [] \<Longrightarrow> section_or a first second fallback \<noteq> []"
  by (auto simp: section_or_def dest: extractSection_nonempty split: option.splits)

lemma or_else_section_or:
  "or_else (extractSection a first) (or_else (extractSection a second) fallback) =
     section_or a first second fallback" if "fallback \<noteq> []"
  using that by (auto simp: section_or_def or_else_extract split: option.splits)

lemma section_or_within:
  "js_includes a fallback \<Longrightarrow> js_includes a (section_or a first second fallback)"
  by (auto simp: section_or_def dest: extractSection_sound split: option.splits)

text \<open>
  C9 (amended). For every backend response that lacks a brief and carries a non-empty
  answer, \<open>query\<close> returns the structured response of the legacy transform. Its consensus
  is the section of the answer matched for \<open>consensus\<close>, else the one matched for
  \<open>findings\<close>, else the first 300 code units of the answer; contradiction and gap are the
  sections matched for their keywords, else the fixed default sentences; all three are
  non-empty, the consensus is a part of the answer, and the follow-up questions are the
  three fixed ones. A section is matched exactly when the keyword stands somewhere in the
  answer, in any case of its letters, with a full stop after it; the match is a part of
  the answer: it begins at the leftmost such place with the keyword as the answer spells
  it, runs over the first full stop after the keyword, and ends before the first blank
  line after that full stop, or at the end of the answer. A response without an answer,
  with the empty answer or with a brief is returned as received, and a failed request is
  thrown again.
\<close>

theorem legacy_transform_brief:
  shows "(post request = Inr data \<and> data_answer data = Some a \<and> a \<noteq> [] \<and> data_brief data = None \<longrightarrow>
            query lc str post request = Inr (Transformed (transformLegacyResponse lc str data)) \<and>
            brief (transformLegacyResponse lc str data) =
              \<lparr>consensus = section_or a (js ''consensus'') (js ''findings'') (take 300 a),
               contradiction =
                 section_or a (js ''contradiction'') (js ''conflicting'') default_contradiction,
               gap = section_or a (js ''gap'') (js ''future research'') default_gap\<rparr> \<and>
            consensus (brief (transformLegacyResponse lc str data)) \<noteq> [] \<and>
            contradiction (brief (transformLegacyResponse lc str data)) \<noteq> [] \<and>
            gap (brief (transformLegacyResponse lc str data)) \<noteq> [] \<and>
            js_includes a (consensus (brief (transformLegacyResponse lc str data))) \<and>
            follow_up_questions (transformLegacyResponse lc str data) = fixed_follow_ups) \<and>
         (post request = Inr data \<and>
          (data_answer data = None \<or> data_answer data = Some [] \<or> data_brief data \<noteq> None) \<longrightarrow>
            query lc str post request = Inr (AsReceived data)) \<and>
         (post request = Inl e \<longrightarrow> query lc str post request = Inl e) \<and>
         (extractSection a keyword = None \<longleftrightarrow> \<not> has_section a keyword) \<and>
         (extractSection a keyword = Some m \<longrightarrow>
            starts_with_ci m keyword \<and> 46 \<in> set m \<and> js_includes a m \<and>
            (\<exists>before rest body tail.
               a = before @ rest \<and>
               (\<forall>i<length before.
                  \<not> (starts_with_ci (drop i a) keyword \<and>
                     46 \<in> set (drop (i + length keyword) a))) \<and>
               starts_with_ci rest keyword \<and> drop (length keyword) rest = body @ 46 # tail \<and>
               46 \<notin> set body \<and>
               m = take (length keyword) rest @ body @ 46 # until_blank_line tail)) \<and>
         (\<exists>r. following = until_blank_line following @ r \<and> (r = [] \<or> take 2 r = [10, 10]) \<and>
              \<not> js_includes (until_blank_line following @ take 1 r) [10, 10])"
proof -
  let ?r = "transformLegacyResponse lc str data"
  have 1: "query lc str post request = Inr (Transformed ?r) \<and>
        brief ?r =
          \<lparr>consensus = section_or a (js ''consensus'') (js ''findings'') (take 300 a),
           contradiction =
             section_or a (js ''contradiction'') (js ''conflicting'') default_contradiction,
           gap = section_or a (js ''gap'') (js ''future research'') default_gap\<rparr> \<and>
        consensus (brief ?r) \<noteq> [] \<and> contradiction (brief ?r) \<noteq> [] \<and> gap (brief ?r) \<noteq> [] \<and>
        js_includes a (consensus (brief ?r)) \<and> follow_up_questions ?r = fixed_follow_ups"
    if h: "post request = Inr data \<and> data_answer data = Some a \<and> a \<noteq> [] \<and> data_brief data = None"
  proof -
    have q: "query lc str post request = Inr (Transformed ?r)"
      using h by (simp add: query_def)
    have t: "take 300 a \<noteq> []" using h by simp
    have c: "consensus (brief ?r) = section_or a (js ''consensus'') (js ''findings'') (take 300 a)"
      using h or_else_section_or [OF t] by (simp add: transformLegacyResponse_def Let_def)
    have k: "contradiction (brief ?r) =
        section_or a (js ''contradiction'') (js ''conflicting'') default_contradiction"
      using h or_else_section_or [OF defaults_nonempty(1)]
      by (simp add: transformLegacyResponse_def Let_def default_contradiction_def)
    have g: "gap (brief ?r) = section_or a (js ''gap'') (js ''future research'') default_gap"
      using h or_else_section_or [OF defaults_nonempty(2)]
      by (simp add: transformLegacyResponse_def Let_def default_gap_def)
    have f: "follow_up_questions ?r = fixed_follow_ups"
      by (simp add: transformLegacyResponse_def Let_def fixed_follow_ups_def)
    have "a = [] @ take 300 a @ drop 300 a" by simp
    then have p0: "js_includes a (take 300 a)"
      using js_includes_append [of "[]" "take 300 a" "drop 300 a"] by simp
    have b: "brief ?r = \<lparr>consensus = consensus (brief ?r), contradiction = contradiction (brief ?r),
        gap = gap (brief ?r)\<rparr>"
      by simp
    show ?thesis
      using q f section_or_nonempty [OF t] section_or_nonempty [OF defaults_nonempty(1)]
        section_or_nonempty [OF defaults_nonempty(2)] section_or_within [OF p0]
      by (subst b) (simp add: c k g)
  qed
  have 2: "query lc str post request = Inr (AsReceived data)"
    if "post request = Inr data \<and>
        (data_answer data = None \<or> data_answer data = Some [] \<or> data_brief data \<noteq> None)"
    using that by (auto simp: query_def)
  have 3: "query lc str post request = Inl e" if "post request = Inl e"
    using that by (simp add: query_def)
  have 4: "extractSection a keyword = None \<longleftrightarrow> \<not> has_section a keyword"
    by (rule extractSection_None)
  have 5: "starts_with_ci m keyword \<and> 46 \<in> set m \<and> js_includes a m \<and>
            (\<exists>before rest body tail.
               a = before @ rest \<and>
               (\<forall>i<length before.
                  \<not> (starts_with_ci (drop i a) keyword \<and>
                     46 \<in> set (drop (i + length keyword) a))) \<and>
               starts_with_ci rest keyword \<and> drop (length keyword) rest = body @ 46 # tail \<and>
               46 \<notin> set body \<and>
               m = take (length keyword) rest @ body @ 46 # until_blank_line tail)"
    if x: "extractSection a keyword = Some m"
    using extractSection_sound [OF x] extractSection_shape [OF x] by blast
  have 6: "\<exists>r. following = until_blank_line following @ r \<and> (r = [] \<or> take 2 r = [10, 10]) \<and>
              \<not> js_includes (until_blank_line following @ take 1 r) [10, 10]"
    by (rule until_blank_line_stops)
  show ?thesis
    by (intro conjI impI) (use 1 2 3 4 5 6 in blast)+
qed

text \<open>
  The claim as stated fails: a response that carries the empty string as its answer and
  no brief is returned as received, without a brief; and a response that has a brief is
  returned as received whatever its fields hold.
\<close>

theorem query_unstructured_counterexample:
  "world_query (answering empty_answer_data) sample_request = Inr (AsReceived empty_answer_data) \<and>
   data_brief empty_answer_data = None \<and>
   result_brief (AsReceived empty_answer_data) = None \<and>
   world_query (answering hollow_brief_data) sample_request = Inr (AsReceived hollow_brief_data) \<and>
   map_option consensus (result_brief (AsReceived hollow_brief_data)) = Some []"
  by (simp add: world_query_def query_def answering_def empty_answer_data_def hollow_brief_data_def)

theorem legacy_transform_brief_witness:
  "query (\<lambda>s. s) (\<lambda>s. []) (post_query (answering legacy_data)) sample_request =
     Inr (Transformed (transformLegacyResponse (\<lambda>s. s) (\<lambda>s. []) legacy_data)) \<and>
   brief (transformLegacyResponse (\<lambda>s. s) (\<lambda>s. []) legacy_data) =
     \<lparr>consensus = js ''Microgravity reduces bone density.'',
      contradiction = default_contradiction, gap = default_gap\<rparr> \<and>
   brief (transformLegacyResponse (\<lambda>s. s) (\<lambda>s. []) sectioned_data) =
     \<lparr>consensus = js ''Consensus is bone loss. It is fast.'',
      contradiction = default_contradiction, gap = js ''gap remains.''\<rparr> \<and>
   query (\<lambda>s. s) (\<lambda>s. []) (post_query (answering empty_answer_data)) sample_request =
     Inr (AsReceived empty_answer_data) \<and>
   query (\<lambda>s. s) (\<lambda>s. []) (post_query offline_world) sample_request = Inl ''Network Error''"
proof -
  let ?a = "js ''Microgravity reduces bone density.''"
  let ?b = "js ''Studies agree. The Consensus is bone loss. It is fast.'' @ [10, 10]
              @ js ''A gap remains.''"
  have h: "post_query (answering legacy_data) sample_request = Inr legacy_data \<and>
      data_answer legacy_data = Some ?a \<and> ?a \<noteq> [] \<and> data_brief legacy_data = None"
    by (simp add: answering_def legacy_data_def js_def)
  have n: "section_or ?a (js ''consensus'') (js ''findings'') (take 300 ?a) = ?a"
    "section_or ?a (js ''contradiction'') (js ''conflicting'') default_contradiction
       = default_contradiction"
    "section_or ?a (js ''gap'') (js ''future research'') default_gap = default_gap"
    by (simp_all add: section_or_def js_def match_here_def canonicalize_def)
  have k: "post_query (answering sectioned_data) sample_request = Inr sectioned_data \<and>
      data_answer sectioned_data = Some ?b \<and> ?b \<noteq> [] \<and> data_brief sectioned_data = None"
    by (simp add: answering_def sectioned_data_def js_def)
  have s: "section_or ?b (js ''consensus'') (js ''findings'') (take 300 ?b)
       = js ''Consensus is bone loss. It is fast.''"
    "section_or ?b (js ''contradiction'') (js ''conflicting'') default_contradiction
       = default_contradiction"
    "section_or ?b (js ''gap'') (js ''future research'') default_gap = js ''gap remains.''"
    by (simp_all add: section_or_def js_def match_here_def canonicalize_def)
  have e: "post_query (answering empty_answer_data) sample_request = Inr empty_answer_data \<and>
      (data_answer empty_answer_data = None \<or> data_answer empty_answer_data = Some [] \<or>
       data_brief empty_answer_data \<noteq> None)"
    by (simp add: answering_def empty_answer_data_def)
  have f: "post_query offline_world sample_request = Inl ''Network Error''"
    by (simp add: offline_world_def)
  from legacy_transform_brief [where post = "post_query (answering legacy_data)"
      and request = sample_request and data = legacy_data and a = ?a and lc = "\<lambda>s. s"
      and str = "\<lambda>s. []", THEN conjunct1] h n
  have 1: "query (\<lambda>s. s) (\<lambda>s. []) (post_query (answering legacy_data)) sample_request =
       Inr (Transformed (transformLegacyResponse (\<lambda>s. s) (\<lambda>s. []) legacy_data)) \<and>
     brief (transformLegacyResponse (\<lambda>s. s) (\<lambda>s. []) legacy_data) =
       \<lparr>consensus = ?a, contradiction = default_contradiction, gap = default_gap\<rparr>"
    by simp
  from legacy_transform_brief [where post = "post_query (answering sectioned_data)"
      and request = sample_request and data = sectioned_data and a = ?b and lc = "\<lambda>s. s"
      and str = "\<lambda>s. []", THEN conjunct1] k s
  have 2: "brief (transformLegacyResponse (\<lambda>s. s) (\<lambda>s. []) sectioned_data) =
       \<lparr>consensus = js ''Consensus is bone loss. It is fast.'',
        contradiction = default_contradiction, gap = js ''gap remains.''\<rparr>"
    by simp
  from legacy_transform_brief [where post = "post_query (answering empty_answer_data)"
      and request = sample_request and data = empty_answer_data and lc = "\<lambda>s. s"
      and str = "\<lambda>s. []", THEN conjunct2, THEN conjunct1] e
  have 3: "query (\<lambda>s. s) (\<lambda>s. []) (post_query (answering empty_answer_data)) sample_request =
       Inr (AsReceived empty_answer_data)"
    by blast
  from legacy_transform_brief [where post = "post_query offline_world"
      and request = sample_request and e = "''Network Error''" and lc = "\<lambda>s. s"
      and str = "\<lambda>s. []", THEN conjunct2, THEN conjunct2, THEN conjunct1] f
  have 4: "query (\<lambda>s. s) (\<lambda>s. []) (post_query offline_world) sample_request = Inl ''Network Error''"
    by simp
  from 1 2 3 4 show ?thesis by blast
qed

section \<open>Skipping the login, and a rejected login\<close>

lemma error_message_nonempty: "or_else x (js ''An error occurred'') \<noteq> []"
  by (rule or_else_nonempty) (simp add: js_def)

lemma handleSubmit_fails:
  assumes "authentication_fails fetch st"
  shows "\<exists>message. handleSubmit fetch st storage =
           (st\<lparr>error := or_else (Some message) (js ''An error occurred''), loading := False\<rparr>,
            storage, [])"
proof -
  have e: "(if isLogin st then js ''/auth/login'' else js ''/auth/register'') = endpoint_of st"
    by (simp add: endpoint_of_def)
  show ?thesis
  proof (cases "fetch (endpoint_of st) (email st) (password st)")
    case (Inl message)
    then show ?thesis
      by (intro exI [of _ message]) (simp add: handleSubmit_def Let_def e)
  next
    case (Inr response)
    show ?thesis
    proof (cases "json response")
      case (Inl message)
      with Inr show ?thesis
        by (intro exI [of _ message]) (simp add: handleSubmit_def Let_def e)
    next
      case body: (Inr data)
      with Inr assms have "\<not> ok response"
        by (simp add: authentication_fails_def split: if_splits)
      with Inr body show ?thesis
        by (intro exI [of _ "or_else (detail data) (js ''Authentication failed'')"])
           (simp add: handleSubmit_def Let_def e)
    qed
  qed
qed

text \<open>
  C7 (amended). On an explicit skip \<open>handleSkip\<close> invokes the success callback with the
  empty token and the empty email, on which \<open>App\<close> leaves the login screen and changes
  nothing else: no token, no user email, not authenticated, and the query interface is
  shown. When the authentication fails (the request throws, the credentials are rejected
  or the body is not JSON), \<open>Login\<close> does not invoke the success callback: it stores
  nothing, shows a non-empty error message and clears \<open>loading\<close>, and \<open>App\<close> stays as it
  was, on the login screen, until the user skips or logs in.
\<close>

theorem skip_and_rejected_login:
  shows "after_login a handleSkip = a\<lparr>showLogin := False\<rparr> \<and>
         (authentication_fails fetch st \<longrightarrow>
            snd (snd (handleSubmit fetch st storage)) = [] \<and>
            fst (snd (handleSubmit fetch st storage)) = storage \<and>
            error (fst (handleSubmit fetch st storage)) \<noteq> [] \<and>
            \<not> loading (fst (handleSubmit fetch st storage)) \<and>
            after_login a (snd (snd (handleSubmit fetch st storage))) = a)"
proof -
  have 1: "after_login a handleSkip = a\<lparr>showLogin := False\<rparr>"
    by (simp add: after_login_def handleSkip_def handleLoginSuccess_def)
  have 2: "snd (snd (handleSubmit fetch st storage)) = [] \<and>
            fst (snd (handleSubmit fetch st storage)) = storage \<and>
            error (fst (handleSubmit fetch st storage)) \<noteq> [] \<and>
            \<not> loading (fst (handleSubmit fetch st storage)) \<and>
            after_login a (snd (snd (handleSubmit fetch st storage))) = a"
    if f: "authentication_fails fetch st"
  proof -
    obtain message where "handleSubmit fetch st storage =
           (st\<lparr>error := or_else (Some message) (js ''An error occurred''), loading := False\<rparr>,
            storage, [])"
      using handleSubmit_fails [OF f] by blast
    then show ?thesis
      using error_message_nonempty [of "Some message"] by (simp add: after_login_def)
  qed
  from 1 2 show ?thesis by blast
qed

text \<open>
  The claim as stated fails: after rejected credentials the client does not continue
  with an empty token; no success callback is invoked and the login screen stays.
\<close>

theorem rejected_login_counterexample:
  "authentication_fails rejecting_fetch sample_login \<and>
   snd (snd (handleSubmit rejecting_fetch sample_login empty_localStorage)) \<noteq> handleSkip \<and>
   showLogin (after_login initialAuth
     (snd (snd (handleSubmit rejecting_fetch sample_login empty_localStorage))))"
  by (simp add: authentication_fails_def rejecting_fetch_def handleSubmit_def Let_def handleSkip_def
      after_login_def initialAuth_def)

theorem skip_and_rejected_login_witness:
  "authentication_fails rejecting_fetch sample_login \<and>
   snd (snd (handleSubmit rejecting_fetch sample_login Map.empty)) = [] \<and>
   after_login initialAuth handleSkip =
     \<lparr>isAuthenticated = False, authToken = [], userEmail = [], showLogin = False\<rparr>"
proof -
  have f: "authentication_fails rejecting_fetch sample_login"
    by (simp add: authentication_fails_def rejecting_fetch_def)
  from skip_and_rejected_login [of initialAuth rejecting_fetch sample_login Map.empty] f
  show ?thesis by (simp add: initialAuth_def)
qed

section \<open>The stored query history\<close>

lemma history_key_inject: "history_key a = history_key b \<longleftrightarrow> a = b"
  by (simp add: history_key_def)

lemma getLocalHistory_saveQuery:
  "getLocalHistory (saveQuery storage item) sessionId =
     (if session_id item = sessionId
      then (case getLocalHistory storage sessionId of
              None \<Rightarrow> None
            | Some history \<Rightarrow> Some (take 20 (item # history)))
      else getLocalHistory storage sessionId)"
proof (cases "getLocalHistory storage (session_id item)")
  case None
  then show ?thesis by (auto simp: saveQuery_def)
next
  case (Some history)
  then show ?thesis
    by (auto simp: saveQuery_def getLocalHistory_def history_key_inject)
qed

lemma take_append_take: "take n (a @ take n b) = take n (a @ b)"
  by (simp add: min_def)

lemma history_after_saves:
  "getLocalHistory storage sessionId = Some h \<Longrightarrow> length h \<le> 20 \<Longrightarrow>
   getLocalHistory (foldl saveQuery storage items) sessionId =
     Some (take 20 (rev (of_session sessionId items) @ h))"
proof (induction items arbitrary: storage h)
  case Nil
  then show ?case by (simp add: of_session_def)
next
  case (Cons item items)
  show ?case
  proof (cases "session_id item = sessionId")
    case True
    then have "getLocalHistory (saveQuery storage item) sessionId = Some (take 20 (item # h))"
      using Cons.prems(1) by (simp add: getLocalHistory_saveQuery)
    then have "getLocalHistory (foldl saveQuery (saveQuery storage item) items) sessionId =
        Some (take 20 (rev (of_session sessionId items) @ take 20 (item # h)))"
      by (rule Cons.IH) simp
    moreover have "rev (of_session sessionId (item # items)) @ h =
        rev (of_session sessionId items) @ (item # h)"
      using True by (simp add: of_session_def)
    ultimately show ?thesis
      by (simp only: foldl_Cons take_append_take)
  next
    case False
    then have "getLocalHistory (saveQuery storage item) sessionId = Some h"
      using Cons.prems(1) by (simp add: getLocalHistory_saveQuery)
    then have "getLocalHistory (foldl saveQuery (saveQuery storage item) items) sessionId =
        Some (take 20 (rev (of_session sessionId items) @ h))"
      using Cons.prems(2) by (rule Cons.IH)
    then show ?thesis
      using False by (simp add: of_session_def)
  qed
qed

text \<open>
  C8. Let the stored history of a session be missing, empty, unparseable or an array of
  at most 20 items, so that \<open>getSessionHistory\<close> returns a list \<open>h\<close> of at most 20 items
  (the empty list in the first three cases). After any sequence of \<open>saveQuery\<close> calls, for
  this and for other sessions, \<open>getSessionHistory\<close> returns the items saved for the
  session, newest first, followed by \<open>h\<close>, cut to 20 items: at most 20 items, the newest at
  index 0. One more save puts its item at index 0 and, once 20 items are held, drops the
  oldest one. A missing or unparseable stored history yields the empty list.
\<close>

theorem history_bounded_newest_first:
  assumes "getSessionHistory storage sessionId = Some h" and "length h \<le> 20"
  shows "getSessionHistory (foldl saveQuery storage items) sessionId =
           Some (take 20 (rev (of_session sessionId items) @ h)) \<and>
         (\<exists>h'. getSessionHistory (foldl saveQuery storage items) sessionId = Some h' \<and> length h' \<le> 20) \<and>
         (session_id item = sessionId \<longrightarrow>
            getSessionHistory (saveQuery storage item) sessionId = Some (take 20 (item # h))) \<and>
         (session_id item = sessionId \<and> length h = 20 \<longrightarrow>
            getSessionHistory (saveQuery storage item) sessionId = Some (item # butlast h)) \<and>
         (other (history_key sessionId) = None \<or> other (history_key sessionId) = Some NotJson \<longrightarrow>
            getSessionHistory other sessionId = Some [])"
proof -
  have g: "getLocalHistory storage sessionId = Some h"
    using assms(1) by (simp add: getSessionHistory_def)
  have 1: "getSessionHistory (foldl saveQuery storage items) sessionId =
           Some (take 20 (rev (of_session sessionId items) @ h))"
    using history_after_saves [OF g assms(2)] by (simp add: getSessionHistory_def)
  have 2: "\<exists>h'. getSessionHistory (foldl saveQuery storage items) sessionId = Some h' \<and> length h' \<le> 20"
    using 1 by simp
  have 3: "session_id item = sessionId \<longrightarrow>
            getSessionHistory (saveQuery storage item) sessionId = Some (take 20 (item # h))"
    using g by (simp add: getSessionHistory_def getLocalHistory_saveQuery)
  have "take 19 h = butlast h" if "length h = 20"
    using that by (simp add: butlast_conv_take)
  then have 4: "session_id item = sessionId \<and> length h = 20 \<longrightarrow>
            getSessionHistory (saveQuery storage item) sessionId = Some (item # butlast h)"
    using 3 by simp
  have 5: "other (history_key sessionId) = None \<or> other (history_key sessionId) = Some NotJson \<longrightarrow>
            getSessionHistory other sessionId = Some []"
    by (auto simp: getSessionHistory_def getLocalHistory_def)
  from 1 2 3 4 5 show ?thesis by blast
qed

theorem history_bounded_newest_first_witness:
  "getSessionHistory corrupt_storage (js ''s1'') = Some [] \<and>
   getSessionHistory
     (foldl saveQuery corrupt_storage
        [sample_item (js ''s1'') (js ''first''), sample_item (js ''s2'') (js ''other''),
         sample_item (js ''s1'') (js ''second'')])
     (js ''s1'')
   = Some [sample_item (js ''s1'') (js ''second''), sample_item (js ''s1'') (js ''first'')]"
proof -
  have h: "getSessionHistory corrupt_storage (js ''s1'') = Some []"
    by (simp add: getSessionHistory_def getLocalHistory_def corrupt_storage_def)
  have l: "length ([] :: QueryHistoryItem list) \<le> 20" by simp
  have s: "js ''s2'' \<noteq> js ''s1''" by (simp add: js_def)
  from history_bounded_newest_first [OF h l, of "[sample_item (js ''s1'') (js ''first''), sample_item (js ''s2'') (js ''other''),
         sample_item (js ''s1'') (js ''second'')]"] h s
  show ?thesis by (simp add: of_session_def sample_item_def)
qed

section \<open>The preferred persona\<close>

lemma max_count_Max: "max_count kvs = Max (insert 0 (snd ` set kvs))"
proof -
  have "fold max (map snd kvs) 0 = Max (set (0 # map snd kvs))"
    by (rule Max.set_eq_fold [symmetric])
  then show ?thesis by (simp add: max_count_def)
qed

lemma max_count_ge: "kv \<in> set kvs \<Longrightarrow> snd kv \<le> max_count kvs"
  by (simp add: max_count_Max)

lemma max_count_attained:
  assumes "kvs \<noteq> []"
  shows "\<exists>kv \<in> set kvs. snd kv = max_count kvs"
proof -
  have "Max (insert 0 (snd ` set kvs)) \<in> insert 0 (snd ` set kvs)"
    by (rule Max_in) simp_all
  then have "max_count kvs = 0 \<or> max_count kvs \<in> snd ` set kvs"
    by (simp add: max_count_Max)
  then show ?thesis
  proof
    assume z: "max_count kvs = 0"
    from assms obtain kv where kv: "kv \<in> set kvs" by (cases kvs) auto
    then have "snd kv \<le> max_count kvs" by (rule max_count_ge)
    with z kv show ?thesis by auto
  next
    assume "max_count kvs \<in> snd ` set kvs"
    then obtain kv where "kv \<in> set kvs" "snd kv = max_count kvs" by force
    then show ?thesis by blast
  qed
qed

lemma increment_nonempty: "increment kvs k \<noteq> []"
  by (cases kvs) (auto split: if_splits)

lemma leaders_nonempty: "kvs \<noteq> [] \<Longrightarrow> leaders kvs \<noteq> []"
proof -
  assume "kvs \<noteq> []"
  then obtain kv where "kv \<in> set kvs" "snd kv = max_count kvs"
    using max_count_attained by blast
  then have "fst kv \<in> set (leaders kvs)"
    by (auto simp: leaders_def)
  then show ?thesis by auto
qed

lemma leaders_member: "q \<in> set (leaders kvs) \<longleftrightarrow> (q, max_count kvs) \<in> set kvs"
  by (force simp: leaders_def)

lemma recompute_preferred_leader:
  assumes "kvs \<noteq> []"
  shows "\<exists>q. recompute_preferred previous kvs = Some q \<and> q \<in> set (leaders kvs)"
proof -
  from assms have "leaders kvs \<noteq> []" by (rule leaders_nonempty)
  then obtain l ls where l: "leaders kvs = l # ls" by (cases "leaders kvs") auto
  show ?thesis
    by (cases previous) (auto simp: recompute_preferred_def Let_def l)
qed

text \<open>
  C2. After every \<open>RecordQuery\<close> the preferred persona is set and is a persona whose count
  is the maximum of \<open>personaCounts\<close>; when the previously preferred persona is among the
  tied leaders it is retained, and otherwise the leader recorded first is chosen. Recording
  \<open>A\<close>, \<open>B\<close>, \<open>A\<close>, \<open>B\<close>, \<open>A\<close>, \<open>B\<close> from the empty profile leaves \<open>A\<close> preferred after every
  step.
\<close>

theorem preferred_persona_tie_break:
  shows "(\<exists>q. preferredPersona (RecordQuery p name topics now) = Some q \<and>
            (q, max_count (personaCounts (RecordQuery p name topics now)))
              \<in> set (personaCounts (RecordQuery p name topics now))) \<and>
         (\<forall>kv \<in> set (personaCounts (RecordQuery p name topics now)).
            snd kv \<le> max_count (personaCounts (RecordQuery p name topics now))) \<and>
         (preferredPersona p = Some previous \<and>
          previous \<in> set (leaders (personaCounts (RecordQuery p name topics now))) \<longrightarrow>
            preferredPersona (RecordQuery p name topics now) = Some previous) \<and>
         (preferredPersona p = None \<or>
          (preferredPersona p = Some previous \<and>
           previous \<notin> set (leaders (personaCounts (RecordQuery p name topics now)))) \<longrightarrow>
            preferredPersona (RecordQuery p name topics now)
              = Some (hd (leaders (personaCounts (RecordQuery p name topics now))))) \<and>
         preferred_after_each emptyProfile [''A'', ''B'', ''A'', ''B'', ''A'', ''B'']
           = [Some ''A'', Some ''A'', Some ''A'', Some ''A'', Some ''A'', Some ''A'']"
proof -
  let ?kvs = "increment (personaCounts p) name"
  have c: "personaCounts (RecordQuery p name topics now) = ?kvs"
    by (simp add: RecordQuery_def Let_def)
  have pr: "preferredPersona (RecordQuery p name topics now) = recompute_preferred (preferredPersona p) ?kvs"
    by (simp add: RecordQuery_def Let_def)
  have ne: "?kvs \<noteq> []" by (rule increment_nonempty)
  then have ln: "leaders ?kvs \<noteq> []" by (rule leaders_nonempty)
  have 1: "\<exists>q. preferredPersona (RecordQuery p name topics now) = Some q \<and>
            (q, max_count (personaCounts (RecordQuery p name topics now)))
              \<in> set (personaCounts (RecordQuery p name topics now))"
    using recompute_preferred_leader [OF ne, of "preferredPersona p"]
    by (simp add: c pr leaders_member)
  have 2: "\<forall>kv \<in> set (personaCounts (RecordQuery p name topics now)).
            snd kv \<le> max_count (personaCounts (RecordQuery p name topics now))"
    by (simp add: max_count_ge)
  have 3: "preferredPersona p = Some previous \<and>
          previous \<in> set (leaders (personaCounts (RecordQuery p name topics now))) \<longrightarrow>
            preferredPersona (RecordQuery p name topics now) = Some previous"
    by (simp add: c pr recompute_preferred_def Let_def)
  have 4: "preferredPersona p = None \<or>
          (preferredPersona p = Some previous \<and>
           previous \<notin> set (leaders (personaCounts (RecordQuery p name topics now)))) \<longrightarrow>
            preferredPersona (RecordQuery p name topics now)
              = Some (hd (leaders (personaCounts (RecordQuery p name topics now))))"
    using ln by (cases "leaders ?kvs") (auto simp: c pr recompute_preferred_def Let_def)
  have 5: "preferred_after_each emptyProfile [''A'', ''B'', ''A'', ''B'', ''A'', ''B'']
           = [Some ''A'', Some ''A'', Some ''A'', Some ''A'', Some ''A'', Some ''A'']"
    by (simp add: emptyProfile_def RecordQuery_def Let_def recompute_preferred_def leaders_def
        max_count_def)
  from 1 2 3 4 5 show ?thesis by blast
qed

theorem preferred_persona_tie_break_witness:
  "preferredPersona profile_A = Some ''A'' \<and>
   leaders (personaCounts (RecordQuery profile_A ''B'' [] 1)) = [''A'', ''B''] \<and>
   preferredPersona (RecordQuery profile_A ''B'' [] 1) = Some ''A'' \<and>
   preferredPersona (RecordQuery emptyProfile ''B'' [] 0) = Some ''B''"
proof -
  have a: "preferredPersona profile_A = Some ''A''"
    by (simp add: profile_A_def emptyProfile_def RecordQuery_def Let_def recompute_preferred_def
        leaders_def max_count_def)
  have l: "leaders (personaCounts (RecordQuery profile_A ''B'' [] 1)) = [''A'', ''B'']"
    by (simp add: profile_A_def emptyProfile_def RecordQuery_def Let_def leaders_def max_count_def)
  have n: "preferredPersona emptyProfile = None"
    by (simp add: emptyProfile_def)
  have h: "leaders (personaCounts (RecordQuery emptyProfile ''B'' [] 0)) = [''B'']"
    by (simp add: emptyProfile_def RecordQuery_def Let_def leaders_def max_count_def)
  from preferred_persona_tie_break [of profile_A "''B''" "[]" 1 "''A''"] a l
  have 1: "preferredPersona (RecordQuery profile_A ''B'' [] 1) = Some ''A''" by simp
  from preferred_persona_tie_break [of emptyProfile "''B''" "[]" 0 "''A''"] n h
  have 2: "preferredPersona (RecordQuery emptyProfile ''B'' [] 0) = Some ''B''" by simp
  from a l 1 2 show ?thesis by blast
qed


section \<open>The recent window of a conversation\<close>

lemma window_Append: "window (Append store u m) v = (if v = u then window store u @ [m] else window store v)"
  by (simp add: Append_def window_def)

lemma window_appends: "window (appends store u ms) u = window store u @ ms"
  unfolding appends_def
  by (induction ms arbitrary: store) (simp_all add: window_Append)

lemma window_RecentWindow: "window (fst (RecentWindow store u n)) v = window store v"
  by (simp add: RecentWindow_def Let_def window_def)

text \<open>
  C6. \<open>RecentWindow(userID, n)\<close> returns the last \<open>min(n, total)\<close> messages of the user in
  their order, oldest first: they are the end of the window. After eight appended
  messages for a new user the default window is the last five of them, after two
  appended messages it is those two, and for a user never seen the result is the empty
  window, which the store then holds for that user.
\<close>

theorem recent_window_last_messages:
  shows "length (snd (RecentWindow store u n)) = min n (length (window store u)) \<and>
         window store u = take (length (window store u) - n) (window store u) @ snd (RecentWindow store u n) \<and>
         window (appends store u ms) u = window store u @ ms \<and>
         (store u = None \<longrightarrow>
            snd (RecentWindow store u n) = [] \<and> fst (RecentWindow store u n) u = Some []) \<and>
         (store u = None \<and> length ms = 8 \<longrightarrow>
            snd (RecentWindow (appends store u ms) u default_window) = drop 3 ms) \<and>
         (store u = None \<and> length ms = 2 \<longrightarrow>
            snd (RecentWindow (appends store u ms) u default_window) = ms)"
proof -
  have 1: "length (snd (RecentWindow store u n)) = min n (length (window store u))"
    by (simp add: RecentWindow_def Let_def)
  have 2: "window store u = take (length (window store u) - n) (window store u) @ snd (RecentWindow store u n)"
    by (simp add: RecentWindow_def Let_def)
  have 3: "window (appends store u ms) u = window store u @ ms"
    by (rule window_appends)
  have 4: "store u = None \<longrightarrow>
            snd (RecentWindow store u n) = [] \<and> fst (RecentWindow store u n) u = Some []"
    by (simp add: RecentWindow_def Let_def window_def)
  have r: "snd (RecentWindow (appends store u ms) u default_window) = drop (length ms - 5) ms"
    if "store u = None"
  proof -
    from that have "window store u = []" by (simp add: window_def)
    then have "window (appends store u ms) u = ms" by (simp add: window_appends)
    then show ?thesis by (simp add: RecentWindow_def Let_def default_window_def)
  qed
  have 5: "store u = None \<and> length ms = 8 \<longrightarrow>
            snd (RecentWindow (appends store u ms) u default_window) = drop 3 ms"
    using r by simp
  have 6: "store u = None \<and> length ms = 2 \<longrightarrow>
            snd (RecentWindow (appends store u ms) u default_window) = ms"
    using r by simp
  from 1 2 3 4 5 6 show ?thesis by blast
qed

theorem recent_window_last_messages_witness:
  "snd (RecentWindow (appends Map.empty ''u1'' (map sample_message [0, 1, 2, 3, 4, 5, 6, 7])) ''u1'' default_window)
     = map sample_message [3, 4, 5, 6, 7] \<and>
   snd (RecentWindow (appends Map.empty ''u1'' (map sample_message [0, 1])) ''u1'' default_window)
     = map sample_message [0, 1] \<and>
   snd (RecentWindow Map.empty ''u2'' default_window) = []"
proof -
  have e: "(Map.empty :: conversations) ''u1'' = None" "(Map.empty :: conversations) ''u2'' = None"
    by simp_all
  from recent_window_last_messages [of Map.empty "''u1''" 5 "map sample_message [0, 1, 2, 3, 4, 5, 6, 7]"] e
  have 1: "snd (RecentWindow (appends Map.empty ''u1'' (map sample_message [0, 1, 2, 3, 4, 5, 6, 7])) ''u1'' default_window)
     = map sample_message [3, 4, 5, 6, 7]" by simp
  from recent_window_last_messages [of Map.empty "''u1''" 5 "map sample_message [0, 1]"] e
  have 2: "snd (RecentWindow (appends Map.empty ''u1'' (map sample_message [0, 1])) ''u1'' default_window)
     = map sample_message [0, 1]" by simp
  from recent_window_last_messages [of Map.empty "''u2''" default_window "[]"] e
  have 3: "snd (RecentWindow Map.empty ''u2'' default_window) = []" by simp
  from 1 2 3 show ?thesis by blast
qed

section \<open>A failed synthesis changes nothing\<close>

text \<open>
  C3. When the synthesis collaborator fails, \<open>Submit\<close> leaves every profile as it was
  (\<open>totalQueries\<close>, \<open>personaCounts\<close> and \<open>topicCounts\<close> included) and every conversation
  window with the messages it had, so with the same length; the events are the progress
  events followed by a single \<open>Failure\<close> with the reason, which is the only terminal event
  and the last event, and the session ends in the state \<open>Failed\<close>.
\<close>

theorem failed_submit_no_mutation:
  assumes "outcome (collaborator asked name (submit_context st userID)) = Inl reason"
    and "Submit collaborator chat now st asked name userID = (events, final, st')"
  shows "profiles st' = profiles st \<and>
         GetProfile st' u = GetProfile st u \<and>
         window (conversation_store st') u = window (conversation_store st) u \<and>
         length (window (conversation_store st') u) = length (window (conversation_store st) u) \<and>
         events = Progress ''retrieving evidence''
                    # map Progress (stages (collaborator asked name (submit_context st userID)))
                    @ [Failure reason] \<and>
         filter is_terminal_event events = [Failure reason] \<and>
         last events = Failure reason \<and>
         final = Failed"
proof -
  let ?reply = "collaborator asked name (submit_context st userID)"
  have np: "filter is_terminal_event (map Progress xs) = []" for xs
    by (induction xs) simp_all
  show ?thesis
  proof (cases userID)
    case None
    with assms have "events = Progress ''retrieving evidence'' # map Progress (stages ?reply) @ [Failure reason]"
      and "final = Failed" and "st' = st\<lparr>conversation_store := conversation_store st\<rparr>"
      by (auto simp: Submit_def Let_def submit_context_def)
    then show ?thesis by (simp add: np GetProfile_def)
  next
    case (Some v)
    obtain store recent where rw: "RecentWindow (conversation_store st) v default_window = (store, recent)"
      by (cases "RecentWindow (conversation_store st) v default_window") auto
    then have ctx: "submit_context st userID = recent"
      by (simp add: submit_context_def Some)
    from assms Some rw ctx
    have "events = Progress ''retrieving evidence'' # map Progress (stages ?reply) @ [Failure reason]"
      and "final = Failed" and s: "st' = st\<lparr>conversation_store := store\<rparr>"
      by (auto simp: Submit_def Let_def)
    moreover have "window store u = window (conversation_store st) u"
      using window_RecentWindow [of "conversation_store st" v default_window u] rw by simp
    ultimately show ?thesis by (simp add: np GetProfile_def)
  qed
qed

theorem failed_submit_no_mutation_witness:
  "fst (Submit failing_collaborator True 7 sample_state ''What is microgravity?'' ''Manager'' (Some ''u1''))
     = [Progress ''retrieving evidence'', Progress ''synthesizing'', Failure ''Timeout''] \<and>
   totalQueries (GetProfile (snd (snd (Submit failing_collaborator True 7 sample_state
       ''What is microgravity?'' ''Manager'' (Some ''u1'')))) ''u1'') = 1 \<and>
   length (window (conversation_store (snd (snd (Submit failing_collaborator True 7 sample_state
       ''What is microgravity?'' ''Manager'' (Some ''u1''))))) ''u1'') = 2"
proof -
  let ?s = "Submit failing_collaborator True 7 sample_state ''What is microgravity?'' ''Manager'' (Some ''u1'')"
  have f: "outcome (failing_collaborator ''What is microgravity?'' ''Manager''
      (submit_context sample_state (Some ''u1''))) = Inl ''Timeout''"
    by (simp add: failing_collaborator_def)
  have p: "?s = (fst ?s, fst (snd ?s), snd (snd ?s))" by simp
  have q: "totalQueries (GetProfile sample_state ''u1'') = 1"
    by (simp add: GetProfile_def sample_state_def profile_A_def RecordQuery_def Let_def emptyProfile_def)
  have l: "length (window (conversation_store sample_state) ''u1'') = 2"
    by (simp add: window_def sample_state_def)
  have g: "stages (failing_collaborator ''What is microgravity?'' ''Manager''
      (submit_context sample_state (Some ''u1''))) = [''synthesizing'']"
    by (simp add: failing_collaborator_def)
  from failed_submit_no_mutation [OF f p, of "''u1''"] q l g show ?thesis by simp
qed

end
